theory Spec2Isabelle
  imports Main "HOL-Library.Sublist"
begin

section \<open>LazyCommits: the commit-and-push loop of src/gitLogic.js and src/index.js\<close>

text \<open>
  The program drives an external version-control binding (simple-git), an interactive
  prompt (inquirer) and a progress spinner (ora). Every call of the binding is awaited
  before the next statement runs, so an \<^verbatim>\<open>async\<close> function is modelled as a
  function from the state of the outside world to its outcome: the value the promise
  resolves with or the error it rejects with, the new world, and the events the call
  produced, in order.
\<close>

subsection \<open>Data\<close>

text \<open>An error thrown by the binding; the program only ever reads its \<^verbatim>\<open>message\<close>.\<close>

datatype error = Error (message: string)

text \<open>An entry of \<^verbatim>\<open>status.files\<close>: the path and the working-tree code.\<close>

record changed_file =
  path :: string
  working_dir :: string

record remote =
  remote_name :: string

text \<open>The result of \<^verbatim>\<open>git.branchLocal()\<close>.\<close>

record branch_summary =
  all_branches :: "string list"
  current :: string

datatype pull_opt = AllowUnrelatedHistories | Rebase

text \<open>
  The calls of the binding the program makes. \<open>Push None\<close> is the plain
  \<^verbatim>\<open>git.push()\<close>; \<open>Push (Some (remote, branch, flags))\<close> is
  \<^verbatim>\<open>git.push(remote, branch, flags)\<close>.
\<close>

datatype git_cmd =
    CheckIsRepo
  | Status
  | Add string
  | Commit string
  | Push "(string \<times> string \<times> string list) option"
  | Pull string string pull_opt
  | GetRemotes
  | AddRemote string string
  | RevParse "string list"
  | BranchLocal
  | Checkout string

text \<open>
  What an observer of one run sees: calls of the binding, prompts, timer waits (in
  milliseconds) and the lines written to the console and to the spinners.
\<close>

datatype event =
    Call git_cmd
  | PromptInput string
  | PromptList string "string list" string
  | Timer nat
  | ConsoleLog string
  | ConsoleError string
  | SpinnerStart string
  | SpinnerText string
  | SpinnerSucceed string
  | SpinnerFail string
  | WaitingStart int
  | WaitingText int nat

text \<open>
  \<open>WaitingStart t\<close> is the spinner started with the text
  \<^verbatim>\<open>Waiting for ${threshold} unstaged files...\<close> and \<open>WaitingText t c\<close> the
  spinner text \<^verbatim>\<open>Waiting for ${threshold} unstaged files... (Current: ${count})\<close>,
  for the threshold \<open>t\<close> and the count \<open>c\<close>. The threshold is whatever number the
  caller passes, so these two texts are kept as their parts and not written out.
\<close>

text \<open>
  The outside world: what each call answers in a state \<open>'w\<close> of the world, and the
  state it leaves. \<open>Inl e\<close> is a rejected promise. \<open>latency w\<close> is the time, in
  milliseconds, that a call issued in the world \<open>w\<close> takes to settle; it matters only
  where calls run side by side, in \<open>waitForThreshold\<close>. No assumption is made on the
  answers: the theorems below hold for every environment.
\<close>

record 'w vcs =
  git_checkIsRepo :: "'w \<Rightarrow> (error + bool) \<times> 'w"
  git_status :: "'w \<Rightarrow> (error + changed_file list) \<times> 'w"
  git_add :: "string \<Rightarrow> 'w \<Rightarrow> (error + unit) \<times> 'w"
  git_commit :: "string \<Rightarrow> 'w \<Rightarrow> (error + unit) \<times> 'w"
  git_push :: "(string \<times> string \<times> string list) option \<Rightarrow> 'w \<Rightarrow> (error + unit) \<times> 'w"
  git_pull :: "string \<Rightarrow> string \<Rightarrow> pull_opt \<Rightarrow> 'w \<Rightarrow> (error + unit) \<times> 'w"
  git_getRemotes :: "'w \<Rightarrow> (error + remote list) \<times> 'w"
  git_addRemote :: "string \<Rightarrow> string \<Rightarrow> 'w \<Rightarrow> (error + unit) \<times> 'w"
  git_revparse :: "string list \<Rightarrow> 'w \<Rightarrow> (error + string) \<times> 'w"
  git_branchLocal :: "'w \<Rightarrow> (error + branch_summary) \<times> 'w"
  git_checkout :: "string \<Rightarrow> 'w \<Rightarrow> (error + unit) \<times> 'w"
  prompt_input :: "string \<Rightarrow> 'w \<Rightarrow> (error + string) \<times> 'w"
  prompt_list :: "string \<Rightarrow> string list \<Rightarrow> string \<Rightarrow> 'w \<Rightarrow> (error + string) \<times> 'w"
  date_now :: "'w \<Rightarrow> string \<times> 'w"
  latency :: "'w \<Rightarrow> nat"

subsection \<open>Awaited calls\<close>

type_synonym ('w, 'a) io = "'w \<Rightarrow> (error + 'a) \<times> 'w \<times> event list"

definition ret :: "'a \<Rightarrow> ('w, 'a) io" where
  "ret x w = (Inr x, w, [])"

definition emit :: "event \<Rightarrow> ('w, unit) io" where
  "emit ev w = (Inr (), w, [ev])"

text \<open>\<^verbatim>\<open>const x = await m; k(x)\<close>: a rejection of \<open>m\<close> skips \<open>k\<close>.\<close>

definition await :: "('w, 'a) io \<Rightarrow> ('a \<Rightarrow> ('w, 'b) io) \<Rightarrow> ('w, 'b) io" where
  "await m k w =
     (case m w of
        (Inl e, w1, evs1) \<Rightarrow> (Inl e, w1, evs1)
      | (Inr x, w1, evs1) \<Rightarrow> (case k x w1 of (r, w2, evs2) \<Rightarrow> (r, w2, evs1 @ evs2)))"

text \<open>\<^verbatim>\<open>try { m } catch (e) { h(e) }\<close>.\<close>

definition try_catch :: "('w, 'a) io \<Rightarrow> (error \<Rightarrow> ('w, 'a) io) \<Rightarrow> ('w, 'a) io" where
  "try_catch m h w =
     (case m w of
        (Inl e, w1, evs1) \<Rightarrow> (case h e w1 of (r, w2, evs2) \<Rightarrow> (r, w2, evs1 @ evs2))
      | (Inr x, w1, evs1) \<Rightarrow> (Inr x, w1, evs1))"

text \<open>
  The outcome of a \<^verbatim>\<open>try\<close> block as a value, for the places where the code
  after the \<^verbatim>\<open>catch\<close> depends on which way the block ended.
\<close>

definition attempt :: "('w, 'a) io \<Rightarrow> ('w, error + 'a) io" where
  "attempt m w = (case m w of (r, w1, evs1) \<Rightarrow> (Inr r, w1, evs1))"

text \<open>One call of the binding: the event, then the environment's answer.\<close>

definition call :: "git_cmd \<Rightarrow> ('w \<Rightarrow> (error + 'a) \<times> 'w) \<Rightarrow> ('w, 'a) io" where
  "call c f w = (case f w of (r, w1) \<Rightarrow> (r, w1, [Call c]))"

definition ask :: "event \<Rightarrow> ('w \<Rightarrow> (error + 'a) \<times> 'w) \<Rightarrow> ('w, 'a) io" where
  "ask q f w = (case f w of (r, w1) \<Rightarrow> (r, w1, [q]))"

text \<open>\<^verbatim>\<open>new Date().toISOString()\<close>: reads the clock, cannot fail, leaves no event.\<close>

definition now_iso :: "'w vcs \<Rightarrow> ('w, string) io" where
  "now_iso E w = (case date_now E w of (ts, w1) \<Rightarrow> (Inr ts, w1, []))"

definition sleep :: "nat \<Rightarrow> ('w, unit) io" where
  "sleep ms = emit (Timer ms)"

text \<open>The events of an outcome, and the calls of the binding among them.\<close>

definition events :: "(error + 'a) \<times> 'w \<times> event list \<Rightarrow> event list" where
  "events r = snd (snd r)"

definition outcome :: "(error + 'a) \<times> 'w \<times> event list \<Rightarrow> error + 'a" where
  "outcome r = fst r"

fun calls :: "event list \<Rightarrow> git_cmd list" where
  "calls [] = []"
| "calls (Call c # evs) = c # calls evs"
| "calls (_ # evs) = calls evs"

fun is_prompt :: "event \<Rightarrow> bool" where
  "is_prompt (PromptInput _) = True"
| "is_prompt (PromptList _ _ _) = True"
| "is_prompt _ = False"

subsection \<open>Strings\<close>

text \<open>\<^verbatim>\<open>s.includes(t)\<close>: \<open>t\<close> occurs in \<open>s\<close> as a contiguous run, case-sensitively.\<close>

fun str_includes :: "string \<Rightarrow> string \<Rightarrow> bool" where
  "str_includes [] t = (t = [])"
| "str_includes (c # s) t = (prefix t (c # s) \<or> str_includes s t)"

text \<open>The length of an array in a template literal.\<close>

fun show_nat :: "nat \<Rightarrow> string" where
  "show_nat n =
     (if n < 10 then [''0123456789'' ! n]
      else show_nat (n div 10) @ [''0123456789'' ! (n mod 10)])"

declare show_nat.simps [simp del]

subsection \<open>checkGitStatus\<close>

text \<open>
  \<^verbatim>\<open>null\<close> is \<open>None\<close>. Both calls stand inside the \<^verbatim>\<open>try\<close>, so the
  promise never rejects.
\<close>

definition checkGitStatus :: "'w vcs \<Rightarrow> ('w, changed_file list option) io" where
  "checkGitStatus E =
     try_catch
       (await (call CheckIsRepo (git_checkIsRepo E)) (\<lambda>isRepo.
          if \<not> isRepo then
            await (emit (ConsoleError ''Current directory is not a git repository.'')) (\<lambda>_.
            ret None)
          else
            await (call Status (git_status E)) (\<lambda>files.
            ret (Some files))))
       (\<lambda>error.
          await (emit (ConsoleError (''Error checking git status: '' @ message error))) (\<lambda>_.
          ret None))"

subsection \<open>processFiles\<close>

text \<open>
  \<^verbatim>\<open>files.slice(0, limit)\<close> for an integer \<open>limit\<close>: a negative end counts
  from the end of the array.
\<close>

definition slice0 :: "'a list \<Rightarrow> int \<Rightarrow> 'a list" where
  "slice0 xs limit =
     (if limit < 0 then take (nat (int (length xs) + limit)) xs else take (nat limit) xs)"

text \<open>\<^verbatim>\<open>limit ? files.slice(0, limit) : files\<close>: the number 0 is falsy.\<close>

definition filesToProcess :: "changed_file list \<Rightarrow> int \<Rightarrow> changed_file list" where
  "filesToProcess files limit = (if limit \<noteq> 0 then slice0 files limit else files)"

text \<open>The commit message of line 41, for a path and the timestamp of the attempt.\<close>

definition commitMessage :: "string \<Rightarrow> string \<Rightarrow> string" where
  "commitMessage p ts = ''Update '' @ p @ '': Automated sync '' @ ts"

text \<open>The body of the \<^verbatim>\<open>for\<close> loop, for one file.\<close>

definition processFile :: "'w vcs \<Rightarrow> changed_file \<Rightarrow> ('w, unit) io" where
  "processFile E file =
     await (emit (SpinnerStart (''Processing '' @ path file @ ''...''))) (\<lambda>_.
     try_catch
       (await (call (Add (path file)) (git_add E (path file))) (\<lambda>_.
        await (now_iso E) (\<lambda>ts.
        await (call (Commit (commitMessage (path file) ts))
                 (git_commit E (commitMessage (path file) ts))) (\<lambda>_.
        emit (SpinnerSucceed (''Committed: '' @ path file))))))
       (\<lambda>error.
          emit (SpinnerFail (''Failed to commit '' @ path file @ '': '' @ message error))))"

fun forEachFile :: "'w vcs \<Rightarrow> changed_file list \<Rightarrow> ('w, unit) io" where
  "forEachFile E [] = ret ()"
| "forEachFile E (file # rest) = await (processFile E file) (\<lambda>_. forEachFile E rest)"

text \<open>
  \<open>files\<close> is \<open>None\<close> for \<^verbatim>\<open>null\<close>; \<open>limit\<close> is the second argument
  (5 when the caller passes none).
\<close>

definition processFiles :: "'w vcs \<Rightarrow> changed_file list option \<Rightarrow> int \<Rightarrow> ('w, unit) io" where
  "processFiles E files limit =
     (case files of
        None \<Rightarrow> emit (ConsoleLog ''No files to process.'')
      | Some fs \<Rightarrow>
          if length fs = 0 then emit (ConsoleLog ''No files to process.'')
          else
            await (emit (ConsoleLog (''Processing '' @ show_nat (length (filesToProcess fs limit))
                                      @ '' files...''))) (\<lambda>_.
            forEachFile E (filesToProcess fs limit)))"

subsection \<open>pushChanges\<close>

definition quoted :: "string \<Rightarrow> string" where
  "quoted s = CHR 0x22 # s @ [CHR 0x22]"

text \<open>JavaScript truthiness of a string that may be \<^verbatim>\<open>undefined\<close>.\<close>

fun truthy :: "string option \<Rightarrow> bool" where
  "truthy None = False"
| "truthy (Some s) = (s \<noteq> [])"

text \<open>\<^verbatim>\<open>git.revparse(['--abbrev-ref', 'HEAD'])\<close>, the name of the current branch.\<close>

definition currentBranch :: "'w vcs \<Rightarrow> ('w, string) io" where
  "currentBranch E =
     call (RevParse [''--abbrev-ref'', ''HEAD'']) (git_revparse E [''--abbrev-ref'', ''HEAD''])"

definition pushUpstream :: "'w vcs \<Rightarrow> string \<Rightarrow> ('w, unit) io" where
  "pushUpstream E branch =
     call (Push (Some (''origin'', branch, [''-u''])))
       (git_push E (Some (''origin'', branch, [''-u''])))"

definition pullOrigin :: "'w vcs \<Rightarrow> string \<Rightarrow> pull_opt \<Rightarrow> ('w, unit) io" where
  "pullOrigin E branch opt = call (Pull ''origin'' branch opt) (git_pull E ''origin'' branch opt)"

text \<open>
  The \<^verbatim>\<open>catch (pushErr)\<close> block of the sync step (lines 112 to 138). \<open>branch\<close>
  is the variable of that name, \<open>None\<close> while it is still \<^verbatim>\<open>undefined\<close>.
  The second \<^verbatim>\<open>revparse\<close> stands outside every \<^verbatim>\<open>try\<close>.
\<close>

definition reconcile :: "'w vcs \<Rightarrow> string option \<Rightarrow> error \<Rightarrow> ('w, unit) io" where
  "reconcile E branch pushErr =
     (if str_includes (message pushErr) ''fetch first''
         \<or> str_includes (message pushErr) ''rejected''
         \<or> str_includes (message pushErr) ''divergent branches''
         \<or> str_includes (message pushErr) ''non-fast-forward''
      then
        await (emit (SpinnerText ''Remote contains changes. Reconciling...'')) (\<lambda>_.
        await (case branch of
                 None \<Rightarrow> currentBranch E
               | Some b \<Rightarrow> if b = [] then currentBranch E else ret b) (\<lambda>branch.
        try_catch
          (await (pullOrigin E branch AllowUnrelatedHistories) (\<lambda>_.
           await (pushUpstream E branch) (\<lambda>_.
           emit (SpinnerSucceed ''Reconciled and pushed!''))))
          (\<lambda>pullErr.
             try_catch
               (await (emit (SpinnerText ''Trying rebase...'')) (\<lambda>_.
                await (pullOrigin E branch Rebase) (\<lambda>_.
                await (pushUpstream E branch) (\<lambda>_.
                emit (SpinnerSucceed ''Rebased and pushed!'')))))
               (\<lambda>finalErr.
                  emit (SpinnerFail (''Critical failure syncing with remote: ''
                                       @ message finalErr))))))
      else emit (SpinnerFail (''Failed to push: '' @ message pushErr)))"

text \<open>
  Lines 102 to 139: the push with the (possibly new) remote. \<open>hasOrigin\<close> and
  \<open>remoteUrl\<close> are the variables of the enclosing block.
\<close>

definition syncWithRemote :: "'w vcs \<Rightarrow> bool \<Rightarrow> string option \<Rightarrow> ('w, unit) io" where
  "syncWithRemote E hasOrigin remoteUrl =
     (if hasOrigin \<or> truthy remoteUrl then
        await (emit (SpinnerStart ''Syncing with remote...'')) (\<lambda>_.
        await (attempt (currentBranch E)) (\<lambda>r.
        case r of
          Inl pushErr \<Rightarrow> reconcile E None pushErr
        | Inr branch \<Rightarrow>
            try_catch
              (await (pushUpstream E branch) (\<lambda>_.
               emit (SpinnerSucceed ''Remote configured and changes pushed!'')))
              (reconcile E (Some branch))))
      else ret ())"

text \<open>
  Lines 66 to 78, and the sync step that follows when linking fails: a remote named
  origin exists. \<^verbatim>\<open>remoteUrl\<close> is still \<^verbatim>\<open>undefined\<close> on this path.
\<close>

definition linkUpstream :: "'w vcs \<Rightarrow> ('w, unit) io" where
  "linkUpstream E =
     await (emit (SpinnerText (''Remote '' @ quoted ''origin''
                                 @ '' found. Attempting to link upstream...''))) (\<lambda>_.
     await (attempt
              (await (currentBranch E) (\<lambda>branch.
               await (pushUpstream E branch) (\<lambda>_.
               emit (SpinnerSucceed ''Upstream linked and changes pushed!''))))) (\<lambda>r.
     case r of
       Inr _ \<Rightarrow> ret ()
     | Inl linkErr \<Rightarrow>
         await (emit (SpinnerFail (''Failed to link upstream: '' @ message linkErr))) (\<lambda>_.
         syncWithRemote E True None)))"

text \<open>
  Lines 79 to 100, and the sync step that follows a non-empty answer: no remote named
  origin exists. \<^verbatim>\<open>inquirer.prompt\<close> stands outside every \<^verbatim>\<open>try\<close>.
\<close>

definition promptForRemote :: "'w vcs \<Rightarrow> ('w, unit) io" where
  "promptForRemote E =
     await (emit (ConsoleLog (CHR 0x0A #
        ''It looks like this repository is not connected to a remote server.''))) (\<lambda>_.
     await (ask (PromptInput
                   ''Enter the GitHub/Remote URL to connect to (or leave empty to skip):'')
              (prompt_input E
                   ''Enter the GitHub/Remote URL to connect to (or leave empty to skip):''))
       (\<lambda>remoteUrl.
     if remoteUrl \<noteq> [] then
       await (try_catch
                (call (AddRemote ''origin'' remoteUrl) (git_addRemote E ''origin'' remoteUrl))
                (\<lambda>e. emit (ConsoleLog (''Remote '' @ quoted ''origin''
                                          @ '' might already exist, proceeding...'')))) (\<lambda>_.
       syncWithRemote E False (Some remoteUrl))
     else ret ()))"

text \<open>
  Lines 58 to 139: the first branch of the outer \<^verbatim>\<open>catch\<close>. The call
  \<^verbatim>\<open>getRemotes\<close> stands outside every \<^verbatim>\<open>try\<close>.
\<close>

definition noUpstream :: "'w vcs \<Rightarrow> ('w, unit) io" where
  "noUpstream E =
     await (emit (SpinnerFail ''No remote/upstream configured.'')) (\<lambda>_.
     await (call GetRemotes (git_getRemotes E)) (\<lambda>remotes.
     case find (\<lambda>r. remote_name r = ''origin'') remotes of
       Some _ \<Rightarrow> linkUpstream E
     | None \<Rightarrow> promptForRemote E))"

text \<open>Lines 141 to 151: the remote is ahead during normal operation.\<close>

definition remoteAhead :: "'w vcs \<Rightarrow> ('w, unit) io" where
  "remoteAhead E =
     await (emit (SpinnerText ''Remote is ahead. Pulling changes...'')) (\<lambda>_.
     try_catch
       (await (currentBranch E) (\<lambda>branch.
        await (pullOrigin E branch Rebase) (\<lambda>_.
        await (call (Push None) (git_push E None)) (\<lambda>_.
        emit (SpinnerSucceed ''Pulled remote changes and pushed.'')))))
       (\<lambda>pullError.
          emit (SpinnerFail ''Failed to auto-sync. Please pull manually to resolve conflicts.'')))"

definition pushChanges :: "'w vcs \<Rightarrow> ('w, unit) io" where
  "pushChanges E =
     await (emit (SpinnerStart ''Pushing changes...'')) (\<lambda>_.
     try_catch
       (await (call (Push None) (git_push E None)) (\<lambda>_.
        emit (SpinnerSucceed ''Changes pushed to remote.'')))
       (\<lambda>error.
          if str_includes (message error) ''No configured push destination''
             \<or> str_includes (message error) ''no upstream branch''
          then noUpstream E
          else if str_includes (message error) ''fetch first''
             \<or> str_includes (message error) ''rejected''
             \<or> str_includes (message error) ''divergent branches''
          then remoteAhead E
          else emit (SpinnerFail (''Failed to push changes: '' @ message error))))"

subsection \<open>waitForThreshold\<close>

text \<open>
  \<^verbatim>\<open>setInterval\<close> calls the asynchronous callback every 5000 ms and does not wait
  for it, so a poll whose status read is still under way when the timer fires again
  runs side by side with the next one. The model follows the event loop. Time is
  counted in milliseconds from the call of \<open>waitForThreshold\<close>; after \<open>k\<close> firings the
  next one is at \<open>5000 * (k + 1)\<close>. A call of the binding is answered in the world in
  which it is issued and settles \<open>latency\<close> later; until then it is in flight.
\<close>

datatype flight =
    IsRepoReply nat "error + bool"
  | StatusReply nat "error + changed_file list"

fun due :: "flight \<Rightarrow> nat" where
  "due (IsRepoReply t _) = t"
| "due (StatusReply t _) = t"

text \<open>The call in flight that settles first; of two that settle together, the one issued first.\<close>

fun earliest :: "flight list \<Rightarrow> flight option" where
  "earliest [] = None"
| "earliest (f # fs) =
     (case earliest fs of
        None \<Rightarrow> Some f
      | Some g \<Rightarrow> if due f \<le> due g then Some f else Some g)"

text \<open>
  What the event loop runs next: the continuation of the earliest settled call, if it
  settles before the next firing of the timer, and the timer's callback otherwise.
\<close>

definition nextSettled :: "nat \<Rightarrow> flight list \<Rightarrow> flight option" where
  "nextSettled k flights =
     (case earliest flights of
        None \<Rightarrow> None
      | Some f \<Rightarrow> if due f < 5000 * (k + 1) then Some f else None)"

text \<open>\<^verbatim>\<open>files ? files.length : 0\<close>.\<close>

definition fileCount :: "changed_file list option \<Rightarrow> nat" where
  "fileCount files = (case files of None \<Rightarrow> 0 | Some fs \<Rightarrow> length fs)"

type_synonym 'w waiting = "'w \<times> nat \<times> flight list \<times> event list"

text \<open>
  Lines 167 to 175, once \<open>checkGitStatus\<close> has returned \<open>files\<close> to the callback:
  the promise resolves (\<open>Inl\<close>) or the wait goes on (\<open>Inr\<close>).
\<close>

definition pollDone ::
  "int \<Rightarrow> changed_file list option \<Rightarrow> 'w waiting
     \<Rightarrow> ((error + changed_file list option) \<times> 'w \<times> event list) + 'w waiting" where
  "pollDone threshold files s =
     (case s of (w, k, flights, acc) \<Rightarrow>
        if int (fileCount files) \<ge> threshold then
          Inl (Inr files, w,
               acc @ [WaitingText threshold (fileCount files),
                      SpinnerSucceed (''Threshold reached! Found ''
                                        @ show_nat (fileCount files) @ '' files.'')])
        else Inr (w, k, flights, acc @ [WaitingText threshold (fileCount files)]))"

text \<open>
  One turn of the event loop. The timer's callback issues \<^verbatim>\<open>checkIsRepo\<close>; when
  that settles, \<open>checkGitStatus\<close> goes on (lines 11 to 17) and issues \<^verbatim>\<open>status\<close>
  or returns \<^verbatim>\<open>null\<close>; when \<^verbatim>\<open>status\<close> settles, \<open>checkGitStatus\<close> returns.
\<close>

definition pollStep ::
  "'w vcs \<Rightarrow> int \<Rightarrow> 'w waiting
     \<Rightarrow> ((error + changed_file list option) \<times> 'w \<times> event list) + 'w waiting" where
  "pollStep E threshold s =
     (case s of (w, k, flights, acc) \<Rightarrow>
        (case nextSettled k flights of
           None \<Rightarrow>
             (case git_checkIsRepo E w of (r, w1) \<Rightarrow>
                Inr (w1, Suc k,
                     flights @ [IsRepoReply (5000 * (k + 1) + latency E w) r],
                     acc @ [Timer 5000, Call CheckIsRepo]))
         | Some (IsRepoReply t r) \<Rightarrow>
             (case r of
                Inl error \<Rightarrow>
                  pollDone threshold None
                    (w, k, remove1 (IsRepoReply t r) flights,
                     acc @ [ConsoleError (''Error checking git status: '' @ message error)])
              | Inr isRepo \<Rightarrow>
                  if \<not> isRepo then
                    pollDone threshold None
                      (w, k, remove1 (IsRepoReply t r) flights,
                       acc @ [ConsoleError ''Current directory is not a git repository.''])
                  else
                    (case git_status E w of (r2, w1) \<Rightarrow>
                       Inr (w1, k,
                            remove1 (IsRepoReply t r) flights
                              @ [StatusReply (t + latency E w) r2],
                            acc @ [Call Status])))
         | Some (StatusReply t r) \<Rightarrow>
             (case r of
                Inl error \<Rightarrow>
                  pollDone threshold None
                    (w, k, remove1 (StatusReply t r) flights,
                     acc @ [ConsoleError (''Error checking git status: '' @ message error)])
              | Inr files \<Rightarrow>
                  pollDone threshold (Some files)
                    (w, k, remove1 (StatusReply t r) flights, acc))))"

text \<open>
  The wait: turns of the event loop until the promise resolves. A wait in which no
  poll ever reaches the threshold never resolves: its value is \<open>None\<close>. Polls still in
  flight when the promise resolves settle later, while the caller runs on; they are
  not followed further.
\<close>

partial_function (option) pollLoop ::
  "'w vcs \<Rightarrow> int \<Rightarrow> 'w waiting
     \<Rightarrow> ((error + changed_file list option) \<times> 'w \<times> event list) option" where
  "pollLoop E threshold s =
     (case pollStep E threshold s of
        Inl resolved \<Rightarrow> Some resolved
      | Inr s1 \<Rightarrow> pollLoop E threshold s1)"

definition waitForThreshold ::
  "'w vcs \<Rightarrow> int \<Rightarrow> 'w \<Rightarrow> ((error + changed_file list option) \<times> 'w \<times> event list) option" where
  "waitForThreshold E threshold w = pollLoop E threshold (w, 0, [], [WaitingStart threshold])"

subsection \<open>getBranches, checkoutBranch\<close>

definition getBranches :: "'w vcs \<Rightarrow> ('w, branch_summary option) io" where
  "getBranches E =
     try_catch
       (await (call BranchLocal (git_branchLocal E)) (\<lambda>branchSummary.
        ret (Some branchSummary)))
       (\<lambda>error.
          await (emit (ConsoleError (''Error getting branches: '' @ message error))) (\<lambda>_.
          ret None))"

definition checkoutBranch :: "'w vcs \<Rightarrow> string \<Rightarrow> ('w, unit) io" where
  "checkoutBranch E branchName =
     await (emit (SpinnerStart (''Switching to branch '' @ branchName @ ''...''))) (\<lambda>_.
     try_catch
       (await (call (Checkout branchName) (git_checkout E branchName)) (\<lambda>_.
        emit (SpinnerSucceed (''Switched to branch '' @ branchName))))
       (\<lambda>error.
          await (emit (SpinnerFail (''Failed to switch branch: '' @ message error))) (\<lambda>_.
          emit (ConsoleLog ''Continuing on current branch...''))))"

subsection \<open>main\<close>

text \<open>
  The command line is taken to carry no arguments, so \<^verbatim>\<open>program.parse()\<close> does
  nothing. A run that never ends has the value \<open>None\<close>.
\<close>

type_synonym ('w, 'a) pio = "'w \<Rightarrow> ((error + 'a) \<times> 'w \<times> event list) option"

definition lift :: "('w, 'a) io \<Rightarrow> ('w, 'a) pio" where
  "lift m w = Some (m w)"

definition await_p :: "('w, 'a) pio \<Rightarrow> ('a \<Rightarrow> ('w, 'b) pio) \<Rightarrow> ('w, 'b) pio" where
  "await_p m k w =
     (case m w of
        None \<Rightarrow> None
      | Some (Inl e, w1, evs1) \<Rightarrow> Some (Inl e, w1, evs1)
      | Some (Inr x, w1, evs1) \<Rightarrow>
          (case k x w1 of
             None \<Rightarrow> None
           | Some (r, w2, evs2) \<Rightarrow> Some (r, w2, evs1 @ evs2)))"

text \<open>Lines 19 to 36 of index.js.\<close>

definition selectBranch :: "'w vcs \<Rightarrow> ('w, unit) io" where
  "selectBranch E =
     await (getBranches E) (\<lambda>branches.
     case branches of
       None \<Rightarrow> ret ()
     | Some bs \<Rightarrow>
         await (ask (PromptList ''Select the branch to work on:'' (all_branches bs) (current bs))
                  (prompt_list E ''Select the branch to work on:'' (all_branches bs) (current bs)))
           (\<lambda>answer.
         if answer \<noteq> current bs then checkoutBranch E answer
         else emit (ConsoleLog (''Staying on current branch: '' @ current bs))))"

definition commitAndPush :: "'w vcs \<Rightarrow> changed_file list option \<Rightarrow> ('w, unit) io" where
  "commitAndPush E files =
     await (processFiles E files 5) (\<lambda>_.
     await (pushChanges E) (\<lambda>_.
     emit (ConsoleLog (CHR 0x0A # ''Waiting for next batch...''))))"

text \<open>One pass through the body of \<^verbatim>\<open>while (true)\<close>.\<close>

definition mainCycle :: "'w vcs \<Rightarrow> ('w, unit) pio" where
  "mainCycle E =
     await_p (lift (checkGitStatus E)) (\<lambda>files.
     case files of
       None \<Rightarrow>
         lift (await (emit (ConsoleError ''Error reading git status. Retrying in 5s...'')) (\<lambda>_.
               sleep 5000))
     | Some fs \<Rightarrow>
         if length fs \<ge> 5 then lift (commitAndPush E files)
         else
           await_p (lift (emit (ConsoleLog (CHR 0x0A # ''Only '' @ show_nat (length fs)
                                   @ '' changed files found (Threshold: 5).'')))) (\<lambda>_.
           await_p (waitForThreshold E 5) (\<lambda>files.
           lift (commitAndPush E files))))"

text \<open>
  The loop has no exit: it ends only when a pass rejects, and \<^verbatim>\<open>main()\<close> then
  rejects with that error. \<open>tr\<close> holds the events so far.
\<close>

partial_function (option) mainLoop ::
  "'w vcs \<Rightarrow> 'w \<Rightarrow> event list \<Rightarrow> (error \<times> 'w \<times> event list) option" where
  "mainLoop E w tr =
     (case mainCycle E w of
        None \<Rightarrow> None
      | Some (Inl e, w1, evs) \<Rightarrow> Some (e, w1, tr @ evs)
      | Some (Inr u, w1, evs) \<Rightarrow> mainLoop E w1 (tr @ evs))"

definition startup :: "'w vcs \<Rightarrow> ('w, unit) io" where
  "startup E =
     await (emit (ConsoleLog ''Running Deep (Auto Git Pusher) in Continuous Mode...'')) (\<lambda>_.
     await (emit (ConsoleLog ''Press Ctrl+C to stop.'')) (\<lambda>_.
     selectBranch E))"

definition main :: "'w vcs \<Rightarrow> 'w \<Rightarrow> (error \<times> 'w \<times> event list) option" where
  "main E w =
     (case startup E w of
        (Inl e, w1, evs) \<Rightarrow> Some (e, w1, evs)
      | (Inr u, w1, evs) \<Rightarrow> mainLoop E w1 evs)"

section \<open>A scripted environment\<close>

text \<open>
  A stand-in for the binding and the prompt, for running the program on concrete
  scenarios: the world is the list of answers still to come, and each call takes the
  next one. Past the end of the script every call succeeds with a default answer, at
  once.
\<close>

datatype reply =
    Fails string
  | Ok
  | No
  | Files "changed_file list"
  | Remotes "remote list"
  | Name string
  | Branches branch_summary
  | Slow nat reply

text \<open>\<open>Slow ms r\<close> is the answer \<open>r\<close>, settling after \<open>ms\<close> milliseconds.\<close>

fun answer :: "reply \<Rightarrow> reply" where
  "answer (Slow ms r) = answer r"
| "answer r = r"

fun delay :: "reply \<Rightarrow> nat" where
  "delay (Slow ms r) = ms + delay r"
| "delay r = 0"

fun pop :: "(reply \<Rightarrow> 'a) \<Rightarrow> reply list \<Rightarrow> 'a \<times> reply list" where
  "pop f [] = (f Ok, [])"
| "pop f (r # rs) = (f (answer r), rs)"

fun next_delay :: "reply list \<Rightarrow> nat" where
  "next_delay [] = 0"
| "next_delay (r # rs) = delay r"

fun as_unit :: "reply \<Rightarrow> error + unit" where
  "as_unit (Fails m) = Inl (Error m)"
| "as_unit _ = Inr ()"

fun as_bool :: "reply \<Rightarrow> error + bool" where
  "as_bool (Fails m) = Inl (Error m)"
| "as_bool No = Inr False"
| "as_bool _ = Inr True"

fun as_files :: "reply \<Rightarrow> error + changed_file list" where
  "as_files (Fails m) = Inl (Error m)"
| "as_files (Files fs) = Inr fs"
| "as_files _ = Inr []"

fun as_remotes :: "reply \<Rightarrow> error + remote list" where
  "as_remotes (Fails m) = Inl (Error m)"
| "as_remotes (Remotes rs) = Inr rs"
| "as_remotes _ = Inr []"

fun as_name :: "reply \<Rightarrow> error + string" where
  "as_name (Fails m) = Inl (Error m)"
| "as_name (Name s) = Inr s"
| "as_name _ = Inr ''main''"

fun as_branches :: "reply \<Rightarrow> error + branch_summary" where
  "as_branches (Fails m) = Inl (Error m)"
| "as_branches (Branches bs) = Inr bs"
| "as_branches _ = Inr \<lparr>all_branches = [''main''], current = ''main''\<rparr>"

definition stub :: "reply list vcs" where
  "stub =
     \<lparr>git_checkIsRepo = pop as_bool,
      git_status = pop as_files,
      git_add = (\<lambda>p. pop as_unit),
      git_commit = (\<lambda>m. pop as_unit),
      git_push = (\<lambda>a. pop as_unit),
      git_pull = (\<lambda>r b opt. pop as_unit),
      git_getRemotes = pop as_remotes,
      git_addRemote = (\<lambda>n u. pop as_unit),
      git_revparse = (\<lambda>args. pop as_name),
      git_branchLocal = pop as_branches,
      git_checkout = (\<lambda>b. pop as_unit),
      prompt_input = (\<lambda>q. pop as_name),
      prompt_list = (\<lambda>q cs d. pop as_name),
      date_now = (\<lambda>w. (''2024-01-01T00:00:00.000Z'', w)),
      latency = next_delay\<rparr>"

definition changed :: "string \<Rightarrow> changed_file" where
  "changed p = \<lparr>path = p, working_dir = ''M''\<rparr>"

section \<open>Properties of a batch\<close>

text \<open>
  The calls one file of a batch can cause: the stage call alone, or the stage call
  followed at once by the commit of that file.
\<close>

definition stage_only :: "changed_file \<Rightarrow> git_cmd list \<Rightarrow> bool" where
  "stage_only f b = (b = [Add (path f)])"

definition stage_commit :: "changed_file \<Rightarrow> git_cmd list \<Rightarrow> bool" where
  "stage_commit f b = (\<exists>ts. b = [Add (path f), Commit (commitMessage (path f) ts)])"

definition file_block :: "changed_file \<Rightarrow> git_cmd list \<Rightarrow> bool" where
  "file_block f b = (stage_only f b \<or> stage_commit f b)"

definition stage_never_fails :: "'w vcs \<Rightarrow> bool" where
  "stage_never_fails E = (\<forall>p w. fst (git_add E p w) = Inr ())"

fun is_commit :: "git_cmd \<Rightarrow> bool" where
  "is_commit (Commit _) = True"
| "is_commit _ = False"

text \<open>
  The events one file of a batch can cause: staging failed, committing failed, or the
  file was committed. Each ends with the report of what happened.
\<close>

definition stage_failed_run :: "changed_file \<Rightarrow> event list \<Rightarrow> bool" where
  "stage_failed_run f b =
     (\<exists>msg. b = [SpinnerStart (''Processing '' @ path f @ ''...''), Call (Add (path f)),
                 SpinnerFail (''Failed to commit '' @ path f @ '': '' @ msg)])"

definition commit_failed_run :: "changed_file \<Rightarrow> event list \<Rightarrow> bool" where
  "commit_failed_run f b =
     (\<exists>ts msg. b = [SpinnerStart (''Processing '' @ path f @ ''...''), Call (Add (path f)),
                    Call (Commit (commitMessage (path f) ts)),
                    SpinnerFail (''Failed to commit '' @ path f @ '': '' @ msg)])"

definition committed_run :: "changed_file \<Rightarrow> event list \<Rightarrow> bool" where
  "committed_run f b =
     (\<exists>ts. b = [SpinnerStart (''Processing '' @ path f @ ''...''), Call (Add (path f)),
                Call (Commit (commitMessage (path f) ts)),
                SpinnerSucceed (''Committed: '' @ path f)])"

definition file_run :: "changed_file \<Rightarrow> event list \<Rightarrow> bool" where
  "file_run f b = (stage_failed_run f b \<or> commit_failed_run f b \<or> committed_run f b)"

text \<open>
  What a batch is expected to do, read off the words of the claims: each file in turn,
  in the world the files before it have left, gets the stage call on its path; the
  commit of that file follows if and only if the stage call succeeded; and the run of
  the file ends with the report of how it went. First with the events and the world
  after, then the calls alone.
\<close>

definition expectedFileRun :: "'w vcs \<Rightarrow> changed_file \<Rightarrow> 'w \<Rightarrow> event list \<times> 'w" where
  "expectedFileRun E f w =
     (case git_add E (path f) w of
        (Inl e, w1) \<Rightarrow>
          ([SpinnerStart (''Processing '' @ path f @ ''...''), Call (Add (path f)),
            SpinnerFail (''Failed to commit '' @ path f @ '': '' @ message e)], w1)
      | (Inr _, w1) \<Rightarrow>
          (case date_now E w1 of (ts, w2) \<Rightarrow>
             (case git_commit E (commitMessage (path f) ts) w2 of
                (Inl e, w3) \<Rightarrow>
                  ([SpinnerStart (''Processing '' @ path f @ ''...''), Call (Add (path f)),
                    Call (Commit (commitMessage (path f) ts)),
                    SpinnerFail (''Failed to commit '' @ path f @ '': '' @ message e)], w3)
              | (Inr _, w3) \<Rightarrow>
                  ([SpinnerStart (''Processing '' @ path f @ ''...''), Call (Add (path f)),
                    Call (Commit (commitMessage (path f) ts)),
                    SpinnerSucceed (''Committed: '' @ path f)], w3))))"

fun expectedBatchRun :: "'w vcs \<Rightarrow> changed_file list \<Rightarrow> 'w \<Rightarrow> event list \<times> 'w" where
  "expectedBatchRun E [] w = ([], w)"
| "expectedBatchRun E (f # fs) w =
     (case expectedFileRun E f w of (evs, w1) \<Rightarrow>
        (case expectedBatchRun E fs w1 of (evs', w2) \<Rightarrow> (evs @ evs', w2)))"

definition expectedFileCalls :: "'w vcs \<Rightarrow> changed_file \<Rightarrow> 'w \<Rightarrow> git_cmd list \<times> 'w" where
  "expectedFileCalls E f w =
     (case git_add E (path f) w of
        (Inl _, w1) \<Rightarrow> ([Add (path f)], w1)
      | (Inr _, w1) \<Rightarrow>
          (case date_now E w1 of (ts, w2) \<Rightarrow>
             (case git_commit E (commitMessage (path f) ts) w2 of (_, w3) \<Rightarrow>
                ([Add (path f), Commit (commitMessage (path f) ts)], w3))))"

fun expectedBatchCalls :: "'w vcs \<Rightarrow> changed_file list \<Rightarrow> 'w \<Rightarrow> git_cmd list" where
  "expectedBatchCalls E [] w = []"
| "expectedBatchCalls E (f # fs) w =
     (case expectedFileCalls E f w of (cs, w1) \<Rightarrow> cs @ expectedBatchCalls E fs w1)"

section \<open>Properties of a push\<close>

text \<open>An outcome with further events in front.\<close>

definition prepend :: "event list \<Rightarrow> (error + 'a) \<times> 'w \<times> event list \<Rightarrow> (error + 'a) \<times> 'w \<times> event list" where
  "prepend evs r = (fst r, fst (snd r), evs @ snd (snd r))"

text \<open>
  The calls of the recovery when the remote is ahead: read the branch, pull with
  rebase, push plainly, each one only if the one before it succeeded.
\<close>

definition remoteAheadCalls :: "'w vcs \<Rightarrow> 'w \<Rightarrow> git_cmd list" where
  "remoteAheadCalls E w =
     (case git_revparse E [''--abbrev-ref'', ''HEAD''] w of
        (Inl _, _) \<Rightarrow> [RevParse [''--abbrev-ref'', ''HEAD'']]
      | (Inr b, w1) \<Rightarrow>
          (case git_pull E ''origin'' b Rebase w1 of
             (Inl _, _) \<Rightarrow> [RevParse [''--abbrev-ref'', ''HEAD''], Pull ''origin'' b Rebase]
           | (Inr _, _) \<Rightarrow>
               [RevParse [''--abbrev-ref'', ''HEAD''], Pull ''origin'' b Rebase, Push None]))"

text \<open>Pulls with allow-unrelated-histories.\<close>

fun is_unrelated_pull :: "git_cmd \<Rightarrow> bool" where
  "is_unrelated_pull (Pull _ _ AllowUnrelatedHistories) = True"
| "is_unrelated_pull _ = False"

text \<open>Events that add a remote; an action during which no event of a kind occurs.\<close>

fun is_add_remote :: "event \<Rightarrow> bool" where
  "is_add_remote (Call (AddRemote _ _)) = True"
| "is_add_remote _ = False"

definition never :: "(event \<Rightarrow> bool) \<Rightarrow> ('w, 'a) io \<Rightarrow> bool" where
  "never Q m = (\<forall>w. \<not> list_ex Q (events (m w)))"

text \<open>
  What the environment answers to a pull from origin followed, if the pull succeeds, by
  a push with \<^verbatim>\<open>-u\<close>; and the calls that this takes.
\<close>

definition pullThenPush :: "'w vcs \<Rightarrow> string \<Rightarrow> pull_opt \<Rightarrow> 'w \<Rightarrow> (error + unit) \<times> 'w" where
  "pullThenPush E b opt w =
     (case git_pull E ''origin'' b opt w of
        (Inl e, w1) \<Rightarrow> (Inl e, w1)
      | (Inr _, w1) \<Rightarrow> git_push E (Some (''origin'', b, [''-u''])) w1)"

definition pullThenPushCalls :: "'w vcs \<Rightarrow> string \<Rightarrow> pull_opt \<Rightarrow> 'w \<Rightarrow> git_cmd list" where
  "pullThenPushCalls E b opt w =
     (case git_pull E ''origin'' b opt w of
        (Inl _, _) \<Rightarrow> [Pull ''origin'' b opt]
      | (Inr _, _) \<Rightarrow> [Pull ''origin'' b opt, Push (Some (''origin'', b, [''-u'']))])"

text \<open>Scenarios for the scripted environment.\<close>

definition rejected_sync_script :: "reply list" where
  "rejected_sync_script =
     [Name ''dev'', Fails ''! [rejected] dev -> dev (fetch first)'',
      Fails ''fatal: refusing to merge'', Ok, Fails ''! [rejected] dev -> dev (non-fast-forward)'']"

definition origin_script :: "reply list" where
  "origin_script =
     [Fails ''fatal: The current branch dev has no upstream branch.'',
      Remotes [\<lparr>remote_name = ''origin''\<rparr>],
      Name ''dev'', Fails ''error: failed to push some refs'',
      Name ''dev'', Ok]"

definition no_origin_script :: "reply list" where
  "no_origin_script =
     [Fails ''fatal: No configured push destination.'', Remotes [],
      Name ''https://example.com/repo.git'', Fails ''error: remote origin already exists.'',
      Name ''dev'', Ok]"

definition skip_script :: "reply list" where
  "skip_script = [Fails ''fatal: No configured push destination.'', Remotes [], Name []]"

section \<open>Properties of polling\<close>

fun is_checkout :: "git_cmd \<Rightarrow> bool" where
  "is_checkout (Checkout _) = True"
| "is_checkout _ = False"

text \<open>
  The polls of a wait, taken one after the other: the world in which the \<open>n\<close>-th
  status read starts when every read before it has finished, what that read resolves
  with, and the count \<^verbatim>\<open>files ? files.length : 0\<close> the callback makes of it.
\<close>

fun pollWorld :: "'w vcs \<Rightarrow> 'w \<Rightarrow> nat \<Rightarrow> 'w" where
  "pollWorld E w 0 = w"
| "pollWorld E w (Suc n) = pollWorld E (fst (snd (checkGitStatus E w))) n"

definition pollFiles :: "'w vcs \<Rightarrow> 'w \<Rightarrow> nat \<Rightarrow> changed_file list option" where
  "pollFiles E w n =
     (case outcome (checkGitStatus E (pollWorld E w n)) of Inl _ \<Rightarrow> None | Inr files \<Rightarrow> files)"

definition pollCount :: "'w vcs \<Rightarrow> 'w \<Rightarrow> nat \<Rightarrow> nat" where
  "pollCount E w n = fileCount (pollFiles E w n)"

text \<open>
  The events of one poll that runs alone: the firing of the timer, the status read,
  the spinner text with the count.
\<close>

definition pollRound :: "'w vcs \<Rightarrow> int \<Rightarrow> 'w \<Rightarrow> nat \<Rightarrow> event list" where
  "pollRound E threshold w n =
     Timer 5000 # events (checkGitStatus E (pollWorld E w n))
       @ [WaitingText threshold (pollCount E w n)]"

text \<open>
  The time a status read takes from the firing of the timer: the latency of
  \<^verbatim>\<open>checkIsRepo\<close> and, when the directory is a repository, of \<^verbatim>\<open>status\<close>
  after it.
\<close>

definition readTime :: "'w vcs \<Rightarrow> 'w \<Rightarrow> nat" where
  "readTime E w =
     (case git_checkIsRepo E w of
        (Inl _, _) \<Rightarrow> latency E w
      | (Inr isRepo, w1) \<Rightarrow> if isRepo then latency E w + latency E w1 else latency E w)"

definition pollTime :: "'w vcs \<Rightarrow> 'w \<Rightarrow> nat \<Rightarrow> nat" where
  "pollTime E w n = readTime E (pollWorld E w n)"

text \<open>
  The first \<open>n\<close> passes through the body of \<^verbatim>\<open>while (true)\<close> in \<open>main\<close>:
  the error that ended the loop, if one did, the world and the events so far.
\<close>

fun mainPasses ::
  "nat \<Rightarrow> 'w vcs \<Rightarrow> 'w \<Rightarrow> event list \<Rightarrow> (error option \<times> 'w \<times> event list) option" where
  "mainPasses 0 E w tr = Some (None, w, tr)"
| "mainPasses (Suc n) E w tr =
     (case mainCycle E w of
        None \<Rightarrow> None
      | Some (Inl e, w1, evs) \<Rightarrow> Some (Some e, w1, tr @ evs)
      | Some (Inr u, w1, evs) \<Rightarrow> mainPasses n E w1 (tr @ evs))"

text \<open>Three polls that find 2, 2 and 5 changed files, each answered at once.\<close>

definition three_polls :: "reply list" where
  "three_polls =
     [Ok, Files [changed ''a'', changed ''b''],
      Ok, Files [changed ''a'', changed ''b''],
      Ok, Files [changed ''a'', changed ''b'', changed ''c'', changed ''d'', changed ''e'']]"

text \<open>
  Two polls: the first finds 5 changed files but its status query takes 7000 ms, the
  second finds 6 and is answered at once.
\<close>

definition overlapping_polls :: "reply list" where
  "overlapping_polls =
     [Ok, Slow 7000 (Files [changed ''a'', changed ''b'', changed ''c'', changed ''d'',
                           changed ''e'']),
      Ok, Files [changed ''f1'', changed ''f2'', changed ''f3'', changed ''f4'', changed ''f5'',
                 changed ''f6'']]"

text \<open>A directory that is no repository at the first read and has 5 changed files at the second.\<close>

definition failed_then_five :: "reply list" where
  "failed_then_five =
     [No, Ok, Files [changed ''a'', changed ''b'', changed ''c'', changed ''d'', changed ''e'']]"

section \<open>The batch committer\<close>

lemmas io_defs = ret_def emit_def await_def try_catch_def attempt_def call_def ask_def
  now_iso_def sleep_def

lemma calls_append [simp]: "calls (xs @ ys) = calls xs @ calls ys"
  by (induction xs rule: calls.induct) simp_all

lemma processFile_stage_fails:
  assumes "git_add E (path f) w = (Inl e, w1)"
  shows "processFile E f w =
           (Inr (), w1,
            [SpinnerStart (''Processing '' @ path f @ ''...''), Call (Add (path f)),
             SpinnerFail (''Failed to commit '' @ path f @ '': '' @ message e)])"
  using assms by (simp add: processFile_def io_defs)

lemma processFile_commit_fails:
  assumes "git_add E (path f) w = (Inr u, w1)" and "date_now E w1 = (ts, w2)"
    and "git_commit E (commitMessage (path f) ts) w2 = (Inl e, w3)"
  shows "processFile E f w =
           (Inr (), w3,
            [SpinnerStart (''Processing '' @ path f @ ''...''), Call (Add (path f)),
             Call (Commit (commitMessage (path f) ts)),
             SpinnerFail (''Failed to commit '' @ path f @ '': '' @ message e)])"
  using assms by (simp add: processFile_def io_defs)

lemma processFile_commits:
  assumes "git_add E (path f) w = (Inr u, w1)" and "date_now E w1 = (ts, w2)"
    and "git_commit E (commitMessage (path f) ts) w2 = (Inr u', w3)"
  shows "processFile E f w =
           (Inr (), w3,
            [SpinnerStart (''Processing '' @ path f @ ''...''), Call (Add (path f)),
             Call (Commit (commitMessage (path f) ts)),
             SpinnerSucceed (''Committed: '' @ path f)])"
  using assms by (simp add: processFile_def io_defs)

text \<open>Whatever the environment answers, one file ends in one of the three ways.\<close>

lemma processFile_run:
  "\<exists>w1 evs. processFile E f w = (Inr (), w1, evs) \<and> file_run f evs
      \<and> file_block f (calls evs)
      \<and> (stage_never_fails E \<longrightarrow> stage_commit f (calls evs))"
proof -
  obtain r w1 where a: "git_add E (path f) w = (r, w1)" by force
  obtain ts w2 where d: "date_now E w1 = (ts, w2)" by force
  obtain r' w3 where c: "git_commit E (commitMessage (path f) ts) w2 = (r', w3)" by force
  show ?thesis
  proof (cases r)
    case (Inl e)
    have "\<not> stage_never_fails E"
      using a Inl by (auto simp: stage_never_fails_def intro!: exI [of _ "path f"] exI [of _ w])
    then show ?thesis
      using processFile_stage_fails [of E f w e w1] a Inl
      by (simp add: file_run_def stage_failed_run_def file_block_def stage_only_def)
  next
    case (Inr u)
    note add_ok = this
    show ?thesis
    proof (cases r')
      case (Inl e)
      then show ?thesis
        using processFile_commit_fails [of E f w u w1 ts w2 e w3] a d c add_ok
        by (auto simp: file_run_def commit_failed_run_def file_block_def stage_commit_def)
    next
      case (Inr u')
      then show ?thesis
        using processFile_commits [of E f w u w1 ts w2 u' w3] a d c add_ok
        by (auto simp: file_run_def committed_run_def file_block_def stage_commit_def)
    qed
  qed
qed

lemma forEachFile_runs:
  "\<exists>w1 evs runs. forEachFile E fs w = (Inr (), w1, evs)
      \<and> evs = concat runs \<and> list_all2 file_run fs runs"
proof (induction fs arbitrary: w)
  case Nil
  show ?case by (simp add: ret_def)
next
  case (Cons f fs)
  obtain w1 evs1 where h: "processFile E f w = (Inr (), w1, evs1)" "file_run f evs1"
    using processFile_run [of E f w] by (elim exE conjE)
  obtain w2 evs2 runs where t: "forEachFile E fs w1 = (Inr (), w2, evs2)"
      "evs2 = concat runs" "list_all2 file_run fs runs"
    using Cons.IH [of w1] by (elim exE conjE)
  have "forEachFile E (f # fs) w = (Inr (), w2, evs1 @ evs2)"
    using h(1) t(1) by (simp add: await_def)
  moreover have "evs1 @ evs2 = concat (evs1 # runs)"
    using t(2) by simp
  moreover have "list_all2 file_run (f # fs) (evs1 # runs)"
    using h(2) t(3) by simp
  ultimately show ?case by (intro exI conjI)
qed

lemma forEachFile_blocks:
  "\<exists>w1 evs blocks. forEachFile E fs w = (Inr (), w1, evs)
      \<and> calls evs = concat blocks
      \<and> list_all2 file_block fs blocks
      \<and> (stage_never_fails E \<longrightarrow> list_all2 stage_commit fs blocks)"
proof (induction fs arbitrary: w)
  case Nil
  show ?case by (simp add: ret_def)
next
  case (Cons f fs)
  obtain w1 evs1 where h: "processFile E f w = (Inr (), w1, evs1)"
      "file_block f (calls evs1)" "stage_never_fails E \<longrightarrow> stage_commit f (calls evs1)"
    using processFile_run [of E f w] by (elim exE conjE)
  obtain w2 evs2 blocks where t: "forEachFile E fs w1 = (Inr (), w2, evs2)"
      "calls evs2 = concat blocks" "list_all2 file_block fs blocks"
      "stage_never_fails E \<longrightarrow> list_all2 stage_commit fs blocks"
    using Cons.IH [of w1] by (elim exE conjE)
  have "forEachFile E (f # fs) w = (Inr (), w2, evs1 @ evs2)"
    using h(1) t(1) by (simp add: await_def)
  moreover have "calls (evs1 @ evs2) = concat (calls evs1 # blocks)"
    using t(2) by simp
  moreover have "list_all2 file_block (f # fs) (calls evs1 # blocks)"
    using h(2) t(3) by simp
  moreover have "stage_never_fails E \<longrightarrow> list_all2 stage_commit (f # fs) (calls evs1 # blocks)"
    using h(3) t(4) by simp
  ultimately show ?case by (intro exI conjI)
qed

lemma filesToProcess_positive: "0 < limit \<Longrightarrow> filesToProcess files limit = take (nat limit) files"
  by (simp add: filesToProcess_def slice0_def)

lemma processFiles_nonempty:
  assumes "files \<noteq> []" and "forEachFile E (filesToProcess files limit) w = (r, w1, evs)"
  shows "processFiles E (Some files) limit w =
           (r, w1, ConsoleLog (''Processing '' @ show_nat (length (filesToProcess files limit))
                                 @ '' files...'') # evs)"
  using assms by (simp add: processFiles_def io_defs)

lemma processFiles_empty:
  "processFiles E (Some []) limit w = (Inr (), w, [ConsoleLog ''No files to process.''])"
  by (simp add: processFiles_def io_defs)

lemma processFile_exact:
  "processFile E f w = (Inr (), snd (expectedFileRun E f w), fst (expectedFileRun E f w))"
proof -
  obtain r w1 where a: "git_add E (path f) w = (r, w1)" by force
  obtain ts w2 where d: "date_now E w1 = (ts, w2)" by force
  obtain r' w3 where c: "git_commit E (commitMessage (path f) ts) w2 = (r', w3)" by force
  show ?thesis
  proof (cases r)
    case (Inl e)
    then show ?thesis
      using processFile_stage_fails [of E f w e w1] a by (simp add: expectedFileRun_def)
  next
    case (Inr u)
    note add_ok = this
    show ?thesis
    proof (cases r')
      case (Inl e)
      then show ?thesis
        using processFile_commit_fails [of E f w u w1 ts w2 e w3] a d c add_ok
        by (simp add: expectedFileRun_def)
    next
      case (Inr u')
      then show ?thesis
        using processFile_commits [of E f w u w1 ts w2 u' w3] a d c add_ok
        by (simp add: expectedFileRun_def)
    qed
  qed
qed

lemma forEachFile_exact:
  "forEachFile E fs w = (Inr (), snd (expectedBatchRun E fs w), fst (expectedBatchRun E fs w))"
proof (induction fs arbitrary: w)
  case Nil
  show ?case by (simp add: ret_def)
next
  case (Cons f fs)
  show ?case
    by (simp add: await_def processFile_exact Cons.IH case_prod_unfold)
qed

lemma expectedFileCalls_run:
  "calls (fst (expectedFileRun E f w)) = fst (expectedFileCalls E f w)
   \<and> snd (expectedFileRun E f w) = snd (expectedFileCalls E f w)"
  by (simp add: expectedFileRun_def expectedFileCalls_def split: prod.splits sum.splits)

lemma expectedBatchCalls_run:
  "calls (fst (expectedBatchRun E fs w)) = expectedBatchCalls E fs w"
proof (induction fs arbitrary: w)
  case Nil
  show ?case by simp
next
  case (Cons f fs)
  show ?case
    using expectedFileCalls_run [of E f w] Cons.IH
    by (simp add: case_prod_unfold)
qed

lemma processFiles_calls_exact:
  "calls (events (processFiles E (Some files) limit w)) =
     expectedBatchCalls E (filesToProcess files limit) w"
proof (cases "files = []")
  case True
  then show ?thesis by (simp add: processFiles_empty events_def filesToProcess_def slice0_def)
next
  case False
  show ?thesis
    using processFiles_nonempty [OF False forEachFile_exact [of E "filesToProcess files limit" w]]
    by (simp add: events_def expectedBatchCalls_run)
qed

lemma filesToProcess_zero: "filesToProcess files 0 = files"
  by (simp add: filesToProcess_def)

lemmas run_defs = processFiles_def filesToProcess_def slice0_def processFile_def
  commitMessage_def io_defs stub_def changed_def outcome_def events_def

text \<open>
  Claim C6, as amended. For every list of \<open>N\<close> changed files and every limit
  \<open>L \<ge> 1\<close>, the calls of \<open>processFiles\<close> are exactly the expected calls of the first
  \<open>min N L\<close> files: file by file and in input order, the stage call on the file's
  path, followed at once by the commit of that file if and only if that stage call
  succeeded. So there are exactly \<open>min N L\<close> stage calls, every commit is immediately
  preceded by the stage call on the same path, only files of the prefix are committed
  and none twice; when no stage call fails there are exactly \<open>min N L\<close> commit
  attempts. With the limit 0 the same holds of the whole list. An empty list causes no
  call at all, whatever the limit.
\<close>

theorem processFiles_batch:
  assumes "0 < limit"
  shows "calls (events (processFiles E (Some files) limit w)) =
           expectedBatchCalls E (take (nat limit) files) w
         \<and> (\<exists>blocks. calls (events (processFiles E (Some files) limit w)) = concat blocks
            \<and> length blocks = min (length files) (nat limit)
            \<and> list_all2 file_block (take (nat limit) files) blocks
            \<and> (stage_never_fails E \<longrightarrow> list_all2 stage_commit (take (nat limit) files) blocks))
         \<and> calls (events (processFiles E (Some files) 0 w)) = expectedBatchCalls E files w
         \<and> calls (events (processFiles E (Some []) l w)) = []"
proof -
  have sel: "filesToProcess files limit = take (nat limit) files"
    using assms by (rule filesToProcess_positive)
  have 1: "calls (events (processFiles E (Some files) limit w)) =
           expectedBatchCalls E (take (nat limit) files) w"
    using processFiles_calls_exact [of E files limit w] sel by simp
  have 3: "calls (events (processFiles E (Some files) 0 w)) = expectedBatchCalls E files w"
    using processFiles_calls_exact [of E files 0 w] by (simp add: filesToProcess_zero)
  have 4: "calls (events (processFiles E (Some []) l w)) = []"
    by (simp add: processFiles_empty events_def)
  have 2: "\<exists>blocks. calls (events (processFiles E (Some files) limit w)) = concat blocks
            \<and> length blocks = min (length files) (nat limit)
            \<and> list_all2 file_block (take (nat limit) files) blocks
            \<and> (stage_never_fails E \<longrightarrow> list_all2 stage_commit (take (nat limit) files) blocks)"
  proof (cases "files = []")
    case True
    then show ?thesis by (simp add: processFiles_empty events_def)
  next
    case False
    obtain w1 evs blocks where
      t: "forEachFile E (filesToProcess files limit) w = (Inr (), w1, evs)"
        "calls evs = concat blocks" "list_all2 file_block (filesToProcess files limit) blocks"
        "stage_never_fails E \<longrightarrow> list_all2 stage_commit (filesToProcess files limit) blocks"
      using forEachFile_blocks [of E "filesToProcess files limit" w] by (elim exE conjE)
    have "calls (events (processFiles E (Some files) limit w)) = concat blocks"
      using processFiles_nonempty [OF False t(1)] t(2) by (simp add: events_def)
    moreover have "length blocks = min (length files) (nat limit)"
      using t(3) sel by (auto dest: list_all2_lengthD)
    moreover have "list_all2 file_block (take (nat limit) files) blocks"
      using t(3) sel by simp
    moreover have "stage_never_fails E \<longrightarrow> list_all2 stage_commit (take (nat limit) files) blocks"
      using t(4) sel by simp
    ultimately show ?thesis by blast
  qed
  show ?thesis using 1 2 3 4 by (intro conjI)
qed

theorem processFiles_batch_witness:
  "(0::int) < 2
   \<and> calls (events (processFiles stub
          (Some [changed ''a.txt'', changed ''b.txt'', changed ''c.txt'']) 2
          [Fails ''index.lock'', Ok, Fails ''hook''])) =
       expectedBatchCalls stub [changed ''a.txt'', changed ''b.txt'']
         [Fails ''index.lock'', Ok, Fails ''hook'']
   \<and> expectedBatchCalls stub [changed ''a.txt'', changed ''b.txt'']
         [Fails ''index.lock'', Ok, Fails ''hook''] =
       [Add ''a.txt'',
        Add ''b.txt'', Commit ''Update b.txt: Automated sync 2024-01-01T00:00:00.000Z'']
   \<and> calls (events (processFiles stub
          (Some [changed ''a.txt'', changed ''b.txt'', changed ''c.txt'']) 0 [])) =
       [Add ''a.txt'', Commit ''Update a.txt: Automated sync 2024-01-01T00:00:00.000Z'',
        Add ''b.txt'', Commit ''Update b.txt: Automated sync 2024-01-01T00:00:00.000Z'',
        Add ''c.txt'', Commit ''Update c.txt: Automated sync 2024-01-01T00:00:00.000Z'']"
proof -
  have pos: "(0::int) < 2" by simp
  note t = processFiles_batch [OF pos, of stub
      "[changed ''a.txt'', changed ''b.txt'', changed ''c.txt'']"
      "[Fails ''index.lock'', Ok, Fails ''hook'']" 2]
  have a: "calls (events (processFiles stub
          (Some [changed ''a.txt'', changed ''b.txt'', changed ''c.txt'']) 2
          [Fails ''index.lock'', Ok, Fails ''hook''])) =
       expectedBatchCalls stub [changed ''a.txt'', changed ''b.txt'']
         [Fails ''index.lock'', Ok, Fails ''hook'']"
    using t by simp
  have b: "expectedBatchCalls stub [changed ''a.txt'', changed ''b.txt'']
         [Fails ''index.lock'', Ok, Fails ''hook''] =
       [Add ''a.txt'',
        Add ''b.txt'', Commit ''Update b.txt: Automated sync 2024-01-01T00:00:00.000Z'']"
    by (simp add: expectedFileCalls_def commitMessage_def stub_def changed_def)
  have c: "calls (events (processFiles stub
          (Some [changed ''a.txt'', changed ''b.txt'', changed ''c.txt'']) 0 [])) =
       [Add ''a.txt'', Commit ''Update a.txt: Automated sync 2024-01-01T00:00:00.000Z'',
        Add ''b.txt'', Commit ''Update b.txt: Automated sync 2024-01-01T00:00:00.000Z'',
        Add ''c.txt'', Commit ''Update c.txt: Automated sync 2024-01-01T00:00:00.000Z'']"
    using processFiles_batch [OF pos, of stub
      "[changed ''a.txt'', changed ''b.txt'', changed ''c.txt'']" "[]" 2]
    by (simp add: expectedFileCalls_def commitMessage_def stub_def changed_def)
  show ?thesis using pos a b c by (intro conjI)
qed

text \<open>
  The claim as stated fails in two ways. A limit of 0 is falsy, so every file is
  processed (two commits where \<open>min 2 0 = 0\<close>); and a file whose stage call fails gets
  no commit attempt (no commit where \<open>min 1 5 = 1\<close>).
\<close>

theorem processFiles_batch_counterexample:
  "length (filter is_commit (calls (events
      (processFiles stub (Some [changed ''a.txt'', changed ''b.txt'']) 0 [])))) = 2
   \<and> min (length [changed ''a.txt'', changed ''b.txt'']) (nat 0) = 0
   \<and> length (filter is_commit (calls (events
      (processFiles stub (Some [changed ''a.txt'']) 5 [Fails ''index.lock''])))) = 0
   \<and> min (length [changed ''a.txt'']) (nat 5) = 1"
  by (simp add: run_defs show_nat.simps)

text \<open>
  Claim C7. Within one \<open>processFiles\<close> call on a non-empty list, the promise always
  resolves, and after the opening line the events are exactly the expected run of the
  selected files: in input order, every selected file gets its stage call in the world
  the files before it have left, whatever became of them; its commit call follows
  unless its own stage call failed; and its run ends with the report, of the commit
  or of the failure with the error's message. A failure at one file is thus caught and
  reported, and takes nothing away from the files after it.
\<close>

theorem processFiles_partial_failure:
  assumes "files \<noteq> []"
  shows "processFiles E (Some files) limit w =
           (Inr (), snd (expectedBatchRun E (filesToProcess files limit) w),
            ConsoleLog (''Processing '' @ show_nat (length (filesToProcess files limit))
                          @ '' files...'')
              # fst (expectedBatchRun E (filesToProcess files limit) w))
         \<and> outcome (processFiles E (Some files) limit w) = Inr ()
         \<and> (\<exists>runs. events (processFiles E (Some files) limit w) =
                ConsoleLog (''Processing '' @ show_nat (length (filesToProcess files limit))
                              @ '' files...'') # concat runs
              \<and> list_all2 file_run (filesToProcess files limit) runs)
         \<and> (\<exists>blocks. calls (events (processFiles E (Some files) limit w)) = concat blocks
              \<and> list_all2 file_block (filesToProcess files limit) blocks
              \<and> (stage_never_fails E
                   \<longrightarrow> list_all2 stage_commit (filesToProcess files limit) blocks))"
proof -
  obtain w1 evs runs where t: "forEachFile E (filesToProcess files limit) w = (Inr (), w1, evs)"
      "evs = concat runs" "list_all2 file_run (filesToProcess files limit) runs"
    using forEachFile_runs [of E "filesToProcess files limit" w] by (elim exE conjE)
  obtain w2 evs2 blocks where
    b: "forEachFile E (filesToProcess files limit) w = (Inr (), w2, evs2)"
      "calls evs2 = concat blocks" "list_all2 file_block (filesToProcess files limit) blocks"
      "stage_never_fails E \<longrightarrow> list_all2 stage_commit (filesToProcess files limit) blocks"
    using forEachFile_blocks [of E "filesToProcess files limit" w] by (elim exE conjE)
  have 0: "processFiles E (Some files) limit w =
           (Inr (), snd (expectedBatchRun E (filesToProcess files limit) w),
            ConsoleLog (''Processing '' @ show_nat (length (filesToProcess files limit))
                          @ '' files...'')
              # fst (expectedBatchRun E (filesToProcess files limit) w))"
    using processFiles_nonempty [OF assms forEachFile_exact [of E "filesToProcess files limit" w]]
    by simp
  have 1: "outcome (processFiles E (Some files) limit w) = Inr ()"
    using processFiles_nonempty [OF assms t(1)] by (simp add: outcome_def)
  have 2: "\<exists>runs. events (processFiles E (Some files) limit w) =
                ConsoleLog (''Processing '' @ show_nat (length (filesToProcess files limit))
                              @ '' files...'') # concat runs
              \<and> list_all2 file_run (filesToProcess files limit) runs"
    using processFiles_nonempty [OF assms t(1)] t(2) t(3) by (auto simp: events_def)
  have "calls (events (processFiles E (Some files) limit w)) = concat blocks"
    using processFiles_nonempty [OF assms b(1)] b(2) by (simp add: events_def)
  then have 3: "\<exists>blocks. calls (events (processFiles E (Some files) limit w)) = concat blocks
              \<and> list_all2 file_block (filesToProcess files limit) blocks
              \<and> (stage_never_fails E
                   \<longrightarrow> list_all2 stage_commit (filesToProcess files limit) blocks)"
    using b(3) b(4) by blast
  show ?thesis using 0 1 2 3 by (intro conjI)
qed

theorem processFiles_partial_failure_witness:
  "[changed ''a.txt'', changed ''b.txt'', changed ''c.txt''] \<noteq> []
   \<and> processFiles stub (Some [changed ''a.txt'', changed ''b.txt'', changed ''c.txt'']) 5
        [Fails ''index.lock'', Ok, Fails ''hook rejected''] =
       (Inr (), [],
        [ConsoleLog ''Processing 3 files...'',
         SpinnerStart ''Processing a.txt...'', Call (Add ''a.txt''),
         SpinnerFail ''Failed to commit a.txt: index.lock'',
         SpinnerStart ''Processing b.txt...'', Call (Add ''b.txt''),
         Call (Commit ''Update b.txt: Automated sync 2024-01-01T00:00:00.000Z''),
         SpinnerFail ''Failed to commit b.txt: hook rejected'',
         SpinnerStart ''Processing c.txt...'', Call (Add ''c.txt''),
         Call (Commit ''Update c.txt: Automated sync 2024-01-01T00:00:00.000Z''),
         SpinnerSucceed ''Committed: c.txt''])"
proof -
  have ne: "[changed ''a.txt'', changed ''b.txt'', changed ''c.txt''] \<noteq> []" by simp
  note t = processFiles_partial_failure [OF ne, of stub 5
        "[Fails ''index.lock'', Ok, Fails ''hook rejected'']", THEN conjunct1]
  have r: "expectedBatchRun stub
        (filesToProcess [changed ''a.txt'', changed ''b.txt'', changed ''c.txt''] 5)
        [Fails ''index.lock'', Ok, Fails ''hook rejected''] =
       ([SpinnerStart ''Processing a.txt...'', Call (Add ''a.txt''),
         SpinnerFail ''Failed to commit a.txt: index.lock'',
         SpinnerStart ''Processing b.txt...'', Call (Add ''b.txt''),
         Call (Commit ''Update b.txt: Automated sync 2024-01-01T00:00:00.000Z''),
         SpinnerFail ''Failed to commit b.txt: hook rejected'',
         SpinnerStart ''Processing c.txt...'', Call (Add ''c.txt''),
         Call (Commit ''Update c.txt: Automated sync 2024-01-01T00:00:00.000Z''),
         SpinnerSucceed ''Committed: c.txt''], [])"
    by (simp add: filesToProcess_def slice0_def expectedFileRun_def commitMessage_def
          stub_def changed_def)
  have n: "show_nat (length (filesToProcess
        [changed ''a.txt'', changed ''b.txt'', changed ''c.txt''] 5)) = ''3''"
    by (simp add: filesToProcess_def slice0_def show_nat.simps)
  have "processFiles stub (Some [changed ''a.txt'', changed ''b.txt'', changed ''c.txt'']) 5
        [Fails ''index.lock'', Ok, Fails ''hook rejected''] =
       (Inr (), [],
        [ConsoleLog ''Processing 3 files...'',
         SpinnerStart ''Processing a.txt...'', Call (Add ''a.txt''),
         SpinnerFail ''Failed to commit a.txt: index.lock'',
         SpinnerStart ''Processing b.txt...'', Call (Add ''b.txt''),
         Call (Commit ''Update b.txt: Automated sync 2024-01-01T00:00:00.000Z''),
         SpinnerFail ''Failed to commit b.txt: hook rejected'',
         SpinnerStart ''Processing c.txt...'', Call (Add ''c.txt''),
         Call (Commit ''Update c.txt: Automated sync 2024-01-01T00:00:00.000Z''),
         SpinnerSucceed ''Committed: c.txt''])"
    unfolding t r n by simp
  then show ?thesis using ne by (intro conjI)
qed

section \<open>The push reconciler\<close>

lemma outcome_prepend [simp]: "outcome (prepend evs r) = outcome r"
  by (simp add: prepend_def outcome_def)

lemma events_prepend [simp]: "events (prepend evs r) = evs @ events r"
  by (simp add: prepend_def events_def)

lemma prepend_prepend [simp]: "prepend xs (prepend ys r) = prepend (xs @ ys) r"
  by (simp add: prepend_def)

lemma prepend_tuple [simp]: "prepend xs (r, w, evs) = (r, w, xs @ evs)"
  by (simp add: prepend_def)

lemma await_emit: "await (emit ev) k w = prepend [ev] (k () w)"
  by (simp add: await_def emit_def prepend_def split: prod.splits)

lemma await_call_fails: "f w = (Inl e, w1) \<Longrightarrow> await (call c f) k w = (Inl e, w1, [Call c])"
  by (simp add: await_def call_def)

lemma await_call_ok: "f w = (Inr x, w1) \<Longrightarrow> await (call c f) k w = prepend [Call c] (k x w1)"
  by (simp add: await_def call_def prepend_def split: prod.splits)

lemma try_catch_caught:
  "m w = (Inl e, w1, evs) \<Longrightarrow> try_catch m h w = prepend evs (h e w1)"
  by (simp add: try_catch_def prepend_def split: prod.splits)

lemma try_catch_ok: "m w = (Inr x, w1, evs) \<Longrightarrow> try_catch m h w = (Inr x, w1, evs)"
  by (simp add: try_catch_def)

lemma pushChanges_succeeds:
  assumes "git_push E None w = (Inr u, w1)"
  shows "pushChanges E w =
           (Inr (), w1, [SpinnerStart ''Pushing changes...'', Call (Push None),
                         SpinnerSucceed ''Changes pushed to remote.''])"
  using assms by (simp add: pushChanges_def await_emit await_call_ok try_catch_ok emit_def)

lemma pushChanges_noUpstream:
  assumes "git_push E None w = (Inl e, w1)"
    and "str_includes (message e) ''No configured push destination''
         \<or> str_includes (message e) ''no upstream branch''"
  shows "pushChanges E w =
           prepend [SpinnerStart ''Pushing changes...'', Call (Push None)] (noUpstream E w1)"
proof -
  have "await (call (Push None) (git_push E None))
          (\<lambda>_. emit (SpinnerSucceed ''Changes pushed to remote.'')) w = (Inl e, w1, [Call (Push None)])"
    using assms(1) by (rule await_call_fails)
  then show ?thesis
    using assms(2) unfolding pushChanges_def await_emit
    by (simp only: try_catch_caught if_True prepend_prepend append.simps)
qed

lemma pushChanges_remoteAhead:
  assumes "git_push E None w = (Inl e, w1)"
    and "\<not> (str_includes (message e) ''No configured push destination''
         \<or> str_includes (message e) ''no upstream branch'')"
    and "str_includes (message e) ''fetch first''
         \<or> str_includes (message e) ''rejected''
         \<or> str_includes (message e) ''divergent branches''"
  shows "pushChanges E w =
           prepend [SpinnerStart ''Pushing changes...'', Call (Push None)] (remoteAhead E w1)"
proof -
  have "await (call (Push None) (git_push E None))
          (\<lambda>_. emit (SpinnerSucceed ''Changes pushed to remote.'')) w = (Inl e, w1, [Call (Push None)])"
    using assms(1) by (rule await_call_fails)
  then show ?thesis
    using assms(2,3) unfolding pushChanges_def await_emit
    by (simp only: try_catch_caught if_True if_False prepend_prepend append.simps)
qed

lemma pushChanges_fatal:
  assumes "git_push E None w = (Inl e, w1)"
    and "\<not> (str_includes (message e) ''No configured push destination''
         \<or> str_includes (message e) ''no upstream branch'')"
    and "\<not> (str_includes (message e) ''fetch first''
         \<or> str_includes (message e) ''rejected''
         \<or> str_includes (message e) ''divergent branches'')"
  shows "pushChanges E w =
           (Inr (), w1, [SpinnerStart ''Pushing changes...'', Call (Push None),
                         SpinnerFail (''Failed to push changes: '' @ message e)])"
proof -
  have "await (call (Push None) (git_push E None))
          (\<lambda>_. emit (SpinnerSucceed ''Changes pushed to remote.'')) w = (Inl e, w1, [Call (Push None)])"
    using assms(1) by (rule await_call_fails)
  then show ?thesis
    using assms(2,3) unfolding pushChanges_def await_emit
    by (simp only: try_catch_caught if_False prepend_prepend append.simps emit_def prepend_tuple)
qed

lemma noUpstream_queries_remotes:
  "\<exists>rest. calls (events (noUpstream E w)) = GetRemotes # rest"
proof -
  obtain r w1 where g: "git_getRemotes E w = (r, w1)" by force
  show ?thesis
  proof (cases r)
    case (Inl e)
    then show ?thesis
      using g unfolding noUpstream_def await_emit
      by (simp add: await_call_fails events_def)
  next
    case (Inr remotes)
    then show ?thesis
      using g unfolding noUpstream_def await_emit
      by (simp add: await_call_ok)
  qed
qed

lemma remoteAhead_calls:
  "outcome (remoteAhead E w) = Inr () \<and> calls (events (remoteAhead E w)) = remoteAheadCalls E w"
  unfolding remoteAhead_def remoteAheadCalls_def currentBranch_def pullOrigin_def
  by (simp add: await_def try_catch_def call_def emit_def outcome_def events_def
        split: prod.splits sum.splits)

lemmas push_defs = pushChanges_def noUpstream_def linkUpstream_def promptForRemote_def remoteAhead_def syncWithRemote_def
  reconcile_def currentBranch_def pushUpstream_def pullOrigin_def quoted_def

lemma stub_push_fails: "git_push stub None (Fails m # rest) = (Inl (Error m), rest)"
  by (simp add: stub_def)

text \<open>
  Claim C1, as amended. For every failure of the initial plain push, the error text
  is classified three ways. If the message contains "No configured push destination"
  (with a capital N; the test is case-sensitive) or "no upstream branch", the next call
  is the query of the remote list. Otherwise, if it contains "fetch first", "rejected"
  or "divergent branches", the recovery reads the branch, pulls with rebase and pushes
  plainly, and the promise resolves. Otherwise the fatal push failure is reported and
  no further call is made.
\<close>

theorem pushChanges_classifies:
  assumes "git_push E None w = (Inl e, w1)"
  shows "(str_includes (message e) ''No configured push destination''
            \<or> str_includes (message e) ''no upstream branch''
          \<longrightarrow> (\<exists>rest. calls (events (pushChanges E w)) = Push None # GetRemotes # rest))
       \<and> (\<not> (str_includes (message e) ''No configured push destination''
               \<or> str_includes (message e) ''no upstream branch'')
            \<and> (str_includes (message e) ''fetch first''
               \<or> str_includes (message e) ''rejected''
               \<or> str_includes (message e) ''divergent branches'')
          \<longrightarrow> outcome (pushChanges E w) = Inr ()
              \<and> calls (events (pushChanges E w)) = Push None # remoteAheadCalls E w1)
       \<and> (\<not> (str_includes (message e) ''No configured push destination''
               \<or> str_includes (message e) ''no upstream branch'')
            \<and> \<not> (str_includes (message e) ''fetch first''
               \<or> str_includes (message e) ''rejected''
               \<or> str_includes (message e) ''divergent branches'')
          \<longrightarrow> pushChanges E w =
                (Inr (), w1, [SpinnerStart ''Pushing changes...'', Call (Push None),
                              SpinnerFail (''Failed to push changes: '' @ message e)]))"
proof (intro conjI impI)
  assume "str_includes (message e) ''No configured push destination''
            \<or> str_includes (message e) ''no upstream branch''"
  then have "pushChanges E w =
      prepend [SpinnerStart ''Pushing changes...'', Call (Push None)] (noUpstream E w1)"
    using assms by (rule pushChanges_noUpstream [rotated])
  then show "\<exists>rest. calls (events (pushChanges E w)) = Push None # GetRemotes # rest"
    using noUpstream_queries_remotes [of E w1] by auto
next
  assume a: "\<not> (str_includes (message e) ''No configured push destination''
               \<or> str_includes (message e) ''no upstream branch'')
            \<and> (str_includes (message e) ''fetch first''
               \<or> str_includes (message e) ''rejected''
               \<or> str_includes (message e) ''divergent branches'')"
  have p: "pushChanges E w =
      prepend [SpinnerStart ''Pushing changes...'', Call (Push None)] (remoteAhead E w1)"
    using assms a by (intro pushChanges_remoteAhead) blast+
  show "outcome (pushChanges E w) = Inr ()"
    using p remoteAhead_calls [of E w1] by simp
  show "calls (events (pushChanges E w)) = Push None # remoteAheadCalls E w1"
    using p remoteAhead_calls [of E w1] by simp
next
  assume a: "\<not> (str_includes (message e) ''No configured push destination''
               \<or> str_includes (message e) ''no upstream branch'')
            \<and> \<not> (str_includes (message e) ''fetch first''
               \<or> str_includes (message e) ''rejected''
               \<or> str_includes (message e) ''divergent branches'')"
  show "pushChanges E w =
                (Inr (), w1, [SpinnerStart ''Pushing changes...'', Call (Push None),
                              SpinnerFail (''Failed to push changes: '' @ message e)])"
    using assms a by (intro pushChanges_fatal) blast+
qed

theorem pushChanges_classifies_witness:
  "git_push stub None [Fails ''fatal: The current branch dev has no upstream branch.'', Fails ''offline'']
     = (Inl (Error ''fatal: The current branch dev has no upstream branch.''), [Fails ''offline''])
   \<and> (\<exists>rest. calls (events (pushChanges stub
          [Fails ''fatal: The current branch dev has no upstream branch.'', Fails ''offline'']))
        = Push None # GetRemotes # rest)
   \<and> calls (events (pushChanges stub [Fails ''! [rejected] dev -> dev (fetch first)'', Name ''dev'']))
        = [Push None, RevParse [''--abbrev-ref'', ''HEAD''], Pull ''origin'' ''dev'' Rebase, Push None]
   \<and> pushChanges stub [Fails ''fatal: unable to access remote''] =
       (Inr (), [], [SpinnerStart ''Pushing changes...'', Call (Push None),
                     SpinnerFail ''Failed to push changes: fatal: unable to access remote''])"
proof -
  note a = pushChanges_classifies [OF stub_push_fails
      [of "''fatal: The current branch dev has no upstream branch.''" "[Fails ''offline'']"]]
  note b = pushChanges_classifies [OF stub_push_fails
      [of "''! [rejected] dev -> dev (fetch first)''" "[Name ''dev'']"]]
  note c = pushChanges_classifies [OF stub_push_fails [of "''fatal: unable to access remote''" "[]"]]
  have 1: "\<exists>rest. calls (events (pushChanges stub
          [Fails ''fatal: The current branch dev has no upstream branch.'', Fails ''offline'']))
        = Push None # GetRemotes # rest"
    using a by simp
  have 2: "calls (events (pushChanges stub [Fails ''! [rejected] dev -> dev (fetch first)'', Name ''dev'']))
        = [Push None, RevParse [''--abbrev-ref'', ''HEAD''], Pull ''origin'' ''dev'' Rebase, Push None]"
    using b by (simp add: remoteAheadCalls_def stub_def)
  have 3: "pushChanges stub [Fails ''fatal: unable to access remote''] =
       (Inr (), [], [SpinnerStart ''Pushing changes...'', Call (Push None),
                     SpinnerFail ''Failed to push changes: fatal: unable to access remote''])"
    using c by simp
  show ?thesis using stub_push_fails 1 2 3 by (intro conjI)
qed

text \<open>
  As the claim writes the first pattern, in lower case, it fails: a message containing
  "no configured push destination" is reported as fatal, and the remote list is not
  queried.
\<close>

theorem pushChanges_classifies_counterexample:
  "str_includes ''fatal: no configured push destination'' ''no configured push destination''
   \<and> pushChanges stub [Fails ''fatal: no configured push destination''] =
       (Inr (), [],
        [SpinnerStart ''Pushing changes...'', Call (Push None),
         SpinnerFail ''Failed to push changes: fatal: no configured push destination''])
   \<and> GetRemotes \<notin> set (calls (events (pushChanges stub [Fails ''fatal: no configured push destination''])))"
  by (simp add: pushChanges_def io_defs stub_def events_def)

text \<open>
  Claim C5 says that the promise of \<open>pushChanges\<close> never rejects. It does: the call
  \<^verbatim>\<open>git.getRemotes()\<close> of line 61 stands in the \<^verbatim>\<open>catch\<close> block, outside every
  \<^verbatim>\<open>try\<close>. When the plain push fails for want of an upstream and the query of the
  remotes fails too, the error leaves \<open>pushChanges\<close>, and no outcome is reported.
\<close>

theorem pushChanges_rejects:
  "outcome (pushChanges stub
      [Fails ''fatal: The current branch dev has no upstream branch.'', Fails ''spawn git ENOENT''])
     = Inl (Error ''spawn git ENOENT'')
   \<and> events (pushChanges stub
      [Fails ''fatal: The current branch dev has no upstream branch.'', Fails ''spawn git ENOENT''])
     = [SpinnerStart ''Pushing changes...'', Call (Push None),
        SpinnerFail ''No remote/upstream configured.'', Call GetRemotes]"
  by (simp add: pushChanges_def noUpstream_def io_defs stub_def events_def outcome_def)

lemma never_ret: "never Q (ret x)"
  by (simp add: never_def ret_def events_def)

lemma never_emit: "\<not> Q ev \<Longrightarrow> never Q (emit ev)"
  by (simp add: never_def emit_def events_def)

lemma never_call: "\<not> Q (Call c) \<Longrightarrow> never Q (call c f)"
  by (simp add: never_def call_def events_def split: prod.splits)

lemma never_await: "never Q m \<Longrightarrow> (\<And>x. never Q (k x)) \<Longrightarrow> never Q (await m k)"
  unfolding never_def await_def events_def
  by (auto split: prod.splits sum.splits simp: list_ex_iff) (metis snd_conv)+

lemma never_try_catch: "never Q m \<Longrightarrow> (\<And>e. never Q (h e)) \<Longrightarrow> never Q (try_catch m h)"
  unfolding never_def try_catch_def events_def
  by (auto split: prod.splits sum.splits simp: list_ex_iff) (metis snd_conv)+

lemma never_attempt: "never Q m \<Longrightarrow> never Q (attempt m)"
  unfolding never_def attempt_def events_def
  by (auto split: prod.splits simp: list_ex_iff) (metis snd_conv)

lemmas never_intros = never_ret never_emit never_call never_await never_try_catch never_attempt

lemma reconcile_never:
  assumes "\<And>a. \<not> Q (Call (RevParse a))" and "\<And>r b opt. \<not> Q (Call (Pull r b opt))"
    and "\<And>a. \<not> Q (Call (Push a))" and "\<And>s. \<not> Q (SpinnerText s)"
    and "\<And>s. \<not> Q (SpinnerSucceed s)" and "\<And>s. \<not> Q (SpinnerFail s)"
  shows "never Q (reconcile E branch pushErr)"
  unfolding reconcile_def currentBranch_def pullOrigin_def pushUpstream_def
  by (auto intro!: never_intros assms split: option.splits)

lemma syncWithRemote_never:
  assumes "\<And>a. \<not> Q (Call (RevParse a))" and "\<And>r b opt. \<not> Q (Call (Pull r b opt))"
    and "\<And>a. \<not> Q (Call (Push a))" and "\<And>s. \<not> Q (SpinnerText s)"
    and "\<And>s. \<not> Q (SpinnerSucceed s)" and "\<And>s. \<not> Q (SpinnerFail s)"
    and "\<And>s. \<not> Q (SpinnerStart s)"
  shows "never Q (syncWithRemote E hasOrigin remoteUrl)"
  unfolding syncWithRemote_def currentBranch_def pushUpstream_def
  by (auto intro!: never_intros assms reconcile_never split: sum.splits)

lemma syncWithRemote_no_prompt: "\<not> list_ex is_prompt (events (syncWithRemote E h r w))"
  using syncWithRemote_never [of is_prompt E h r] by (simp add: never_def)

lemma syncWithRemote_no_add_remote:
  "\<not> list_ex is_add_remote (events (syncWithRemote E h r w))"
  using syncWithRemote_never [of is_add_remote E h r] by (simp add: never_def)

lemma await_attempt: "m w = (r, w1, evs) \<Longrightarrow> await (attempt m) k w = prepend evs (k r w1)"
  by (simp add: await_def attempt_def prepend_def split: prod.splits)

lemma call_eq: "f w = (r, w1) \<Longrightarrow> call c f w = (r, w1, [Call c])"
  by (simp add: call_def)

lemma syncWithRemote_unfold:
  assumes "h \<or> truthy r" and "git_revparse E [''--abbrev-ref'', ''HEAD''] w = (rb, w1)"
  shows "syncWithRemote E h r w =
           prepend [SpinnerStart ''Syncing with remote...'',
                    Call (RevParse [''--abbrev-ref'', ''HEAD''])]
             ((case rb of
                 Inl pushErr \<Rightarrow> reconcile E None pushErr
               | Inr branch \<Rightarrow>
                   try_catch
                     (await (pushUpstream E branch) (\<lambda>_.
                      emit (SpinnerSucceed ''Remote configured and changes pushed!'')))
                     (reconcile E (Some branch))) w1)"
proof -
  have "currentBranch E w = (rb, w1, [Call (RevParse [''--abbrev-ref'', ''HEAD''])])"
    using assms(2) by (simp add: currentBranch_def call_eq)
  then show ?thesis
    using assms(1) unfolding syncWithRemote_def await_emit
    by (simp add: await_attempt)
qed

lemma syncWithRemote_push_fails:
  assumes "h \<or> truthy r" and "git_revparse E [''--abbrev-ref'', ''HEAD''] w = (Inr b, w1)"
    and "git_push E (Some (''origin'', b, [''-u''])) w1 = (Inl e, w2)"
  shows "syncWithRemote E h r w =
           prepend [SpinnerStart ''Syncing with remote...'',
                    Call (RevParse [''--abbrev-ref'', ''HEAD'']),
                    Call (Push (Some (''origin'', b, [''-u''])))]
             (reconcile E (Some b) e w2)"
proof -
  have "await (pushUpstream E b)
          (\<lambda>_. emit (SpinnerSucceed ''Remote configured and changes pushed!'')) w1
        = (Inl e, w2, [Call (Push (Some (''origin'', b, [''-u''])))])"
    using assms(3) unfolding pushUpstream_def by (rule await_call_fails)
  then show ?thesis
    using syncWithRemote_unfold [OF assms(1,2)] by (simp add: try_catch_caught)
qed

lemma syncWithRemote_succeeds:
  assumes "h \<or> truthy r"
    and "git_revparse E [''--abbrev-ref'', ''HEAD''] w = (Inr b, w1)"
    and "git_push E (Some (''origin'', b, [''-u''])) w1 = (Inr u, w2)"
  shows "syncWithRemote E h r w =
           (Inr (), w2,
            [SpinnerStart ''Syncing with remote...'', Call (RevParse [''--abbrev-ref'', ''HEAD'']),
             Call (Push (Some (''origin'', b, [''-u'']))),
             SpinnerSucceed ''Remote configured and changes pushed!''])"
proof -
  have "await (pushUpstream E b)
          (\<lambda>_. emit (SpinnerSucceed ''Remote configured and changes pushed!'')) w1
        = (Inr (), w2, [Call (Push (Some (''origin'', b, [''-u'']))),
                        SpinnerSucceed ''Remote configured and changes pushed!''])"
    using assms(3) unfolding pushUpstream_def by (simp add: await_call_ok emit_def)
  then show ?thesis
    using syncWithRemote_unfold [OF assms(1,2)] by (simp add: try_catch_ok)
qed

lemma syncWithRemote_starts:
  assumes "h \<or> truthy r"
  shows "\<exists>rest. events (syncWithRemote E h r w) =
            SpinnerStart ''Syncing with remote...'' # Call (RevParse [''--abbrev-ref'', ''HEAD'']) # rest
          \<and> (\<forall>b w1. git_revparse E [''--abbrev-ref'', ''HEAD''] w = (Inr b, w1) \<longrightarrow>
                (\<exists>rest'. rest = Call (Push (Some (''origin'', b, [''-u'']))) # rest'))"
proof -
  obtain rb w1 where rp: "git_revparse E [''--abbrev-ref'', ''HEAD''] w = (rb, w1)" by force
  show ?thesis
  proof (cases rb)
    case (Inl e)
    then show ?thesis
      using syncWithRemote_unfold [OF assms rp] rp by simp
  next
    case (Inr b)
    obtain rp2 w2 where ps: "git_push E (Some (''origin'', b, [''-u''])) w1 = (rp2, w2)" by force
    show ?thesis
    proof (cases rp2)
      case (Inl e)
      then show ?thesis
        using syncWithRemote_push_fails [OF assms, of E w b w1 e w2] rp ps Inr by simp
    next
      case (Inr u)
      then show ?thesis
        using syncWithRemote_succeeds [OF assms, of E w b w1 u w2] rp ps \<open>rb = Inr b\<close>
        by (simp add: events_def)
    qed
  qed
qed

lemma noUpstream_hasOrigin:
  assumes "git_getRemotes E w = (Inr remotes, w1)"
    and "find (\<lambda>r. remote_name r = ''origin'') remotes = Some r0"
  shows "noUpstream E w =
           prepend [SpinnerFail ''No remote/upstream configured.'', Call GetRemotes]
             (linkUpstream E w1)"
  using assms unfolding noUpstream_def await_emit
  by (simp add: await_call_ok)

lemma noUpstream_noOrigin:
  assumes "git_getRemotes E w = (Inr remotes, w1)"
    and "find (\<lambda>r. remote_name r = ''origin'') remotes = None"
  shows "noUpstream E w =
           prepend [SpinnerFail ''No remote/upstream configured.'', Call GetRemotes]
             (promptForRemote E w1)"
  using assms unfolding noUpstream_def await_emit
  by (simp add: await_call_ok)

lemma linkUpstream_revparse_fails:
  assumes "git_revparse E [''--abbrev-ref'', ''HEAD''] w = (Inl e, w1)"
  shows "linkUpstream E w =
           prepend [SpinnerText (''Remote '' @ quoted ''origin''
                                   @ '' found. Attempting to link upstream...''),
                    Call (RevParse [''--abbrev-ref'', ''HEAD'']),
                    SpinnerFail (''Failed to link upstream: '' @ message e)]
             (syncWithRemote E True None w1)"
  using assms unfolding linkUpstream_def currentBranch_def pushUpstream_def
  by (simp add: await_def attempt_def call_def emit_def prepend_def split: prod.splits)

lemma linkUpstream_push_fails:
  assumes "git_revparse E [''--abbrev-ref'', ''HEAD''] w = (Inr b, w1)"
    and "git_push E (Some (''origin'', b, [''-u''])) w1 = (Inl e, w2)"
  shows "linkUpstream E w =
           prepend [SpinnerText (''Remote '' @ quoted ''origin''
                                   @ '' found. Attempting to link upstream...''),
                    Call (RevParse [''--abbrev-ref'', ''HEAD'']),
                    Call (Push (Some (''origin'', b, [''-u'']))),
                    SpinnerFail (''Failed to link upstream: '' @ message e)]
             (syncWithRemote E True None w2)"
  using assms unfolding linkUpstream_def currentBranch_def pushUpstream_def
  by (simp add: await_def attempt_def call_def emit_def prepend_def split: prod.splits)

lemma linkUpstream_succeeds:
  assumes "git_revparse E [''--abbrev-ref'', ''HEAD''] w = (Inr b, w1)"
    and "git_push E (Some (''origin'', b, [''-u''])) w1 = (Inr u, w2)"
  shows "linkUpstream E w =
           (Inr (), w2,
            [SpinnerText (''Remote '' @ quoted ''origin''
                            @ '' found. Attempting to link upstream...''),
             Call (RevParse [''--abbrev-ref'', ''HEAD'']),
             Call (Push (Some (''origin'', b, [''-u'']))),
             SpinnerSucceed ''Upstream linked and changes pushed!''])"
  using assms unfolding linkUpstream_def currentBranch_def pushUpstream_def
  by (simp add: await_def attempt_def call_def emit_def ret_def)

lemma await_ask_ok: "f w = (Inr x, w1) \<Longrightarrow> await (ask q f) k w = prepend [q] (k x w1)"
  by (simp add: await_def ask_def prepend_def split: prod.splits)

lemma promptForRemote_skipped:
  assumes "prompt_input E
             ''Enter the GitHub/Remote URL to connect to (or leave empty to skip):'' w = (Inr [], w1)"
  shows "promptForRemote E w =
           (Inr (), w1,
            [ConsoleLog (CHR 0x0A #
               ''It looks like this repository is not connected to a remote server.''),
             PromptInput ''Enter the GitHub/Remote URL to connect to (or leave empty to skip):''])"
  using assms unfolding promptForRemote_def await_emit
  by (simp add: await_ask_ok ret_def)

lemma promptForRemote_url:
  assumes "prompt_input E
             ''Enter the GitHub/Remote URL to connect to (or leave empty to skip):'' w = (Inr url, w1)"
    and "url \<noteq> []"
    and "git_addRemote E ''origin'' url w1 = (ra, w2)"
  shows "promptForRemote E w =
           prepend
             ([ConsoleLog (CHR 0x0A #
                 ''It looks like this repository is not connected to a remote server.''),
               PromptInput ''Enter the GitHub/Remote URL to connect to (or leave empty to skip):'',
               Call (AddRemote ''origin'' url)]
              @ (case ra of
                   Inl _ \<Rightarrow> [ConsoleLog (''Remote '' @ quoted ''origin''
                                           @ '' might already exist, proceeding...'')]
                 | Inr _ \<Rightarrow> []))
             (syncWithRemote E False (Some url) w2)"
proof -
  have "await (try_catch
                (call (AddRemote ''origin'' url) (git_addRemote E ''origin'' url))
                (\<lambda>e. emit (ConsoleLog (''Remote '' @ quoted ''origin''
                                          @ '' might already exist, proceeding...''))))
          (\<lambda>_. syncWithRemote E False (Some url)) w1
        = prepend (Call (AddRemote ''origin'' url) #
              (case ra of
                   Inl _ \<Rightarrow> [ConsoleLog (''Remote '' @ quoted ''origin''
                                           @ '' might already exist, proceeding...'')]
                 | Inr _ \<Rightarrow> []))
            (syncWithRemote E False (Some url) w2)"
    using assms(3)
    by (cases ra) (simp_all add: await_def try_catch_def call_def emit_def prepend_def
          split: prod.splits)
  then show ?thesis
    using assms(1,2) unfolding promptForRemote_def await_emit
    by (simp add: await_ask_ok)
qed

lemma no_match_filter: "\<not> list_ex Q xs \<Longrightarrow> filter Q xs = []"
  by (induction xs) auto

lemma calls_map_Call [simp]: "calls (map Call cs) = cs"
  by (induction cs) simp_all

lemma pullPushBlock:
  "await (pullOrigin E b opt) (\<lambda>_. await (pushUpstream E b) (\<lambda>_. emit (SpinnerSucceed s))) w =
     (case pullThenPush E b opt w of
        (Inl e, w1) \<Rightarrow> (Inl e, w1, map Call (pullThenPushCalls E b opt w))
      | (Inr _, w1) \<Rightarrow> (Inr (), w1, map Call (pullThenPushCalls E b opt w) @ [SpinnerSucceed s]))"
  unfolding pullOrigin_def pushUpstream_def pullThenPush_def pullThenPushCalls_def
  by (simp add: await_def call_def emit_def split: prod.splits sum.splits)

lemma reconcile_unfold:
  assumes "str_includes (message pushErr) ''rejected''" and "b \<noteq> []"
  shows "reconcile E (Some b) pushErr w =
     prepend [SpinnerText ''Remote contains changes. Reconciling...'']
       (try_catch
          (await (pullOrigin E b AllowUnrelatedHistories) (\<lambda>_.
           await (pushUpstream E b) (\<lambda>_.
           emit (SpinnerSucceed ''Reconciled and pushed!''))))
          (\<lambda>pullErr.
             try_catch
               (await (emit (SpinnerText ''Trying rebase...'')) (\<lambda>_.
                await (pullOrigin E b Rebase) (\<lambda>_.
                await (pushUpstream E b) (\<lambda>_.
                emit (SpinnerSucceed ''Rebased and pushed!'')))))
               (\<lambda>finalErr.
                  emit (SpinnerFail (''Critical failure syncing with remote: ''
                                       @ message finalErr)))) w)"
proof -
  have "await (ret b) k w = k b w" for k :: "string \<Rightarrow> ('a, unit) io"
    by (simp add: await_def ret_def split: prod.splits)
  then show ?thesis
    using assms unfolding reconcile_def
    by (simp add: await_emit)
qed

lemma reconcile_rejected:
  assumes "str_includes (message pushErr) ''rejected''" and "b \<noteq> []"
  shows "outcome (reconcile E (Some b) pushErr w) = Inr ()
     \<and> (case pullThenPush E b AllowUnrelatedHistories w of
          (Inr _, w3) \<Rightarrow>
             calls (events (reconcile E (Some b) pushErr w)) =
               pullThenPushCalls E b AllowUnrelatedHistories w
             \<and> last (events (reconcile E (Some b) pushErr w)) =
                 SpinnerSucceed ''Reconciled and pushed!''
        | (Inl pullErr, w3) \<Rightarrow>
             calls (events (reconcile E (Some b) pushErr w)) =
               pullThenPushCalls E b AllowUnrelatedHistories w @ pullThenPushCalls E b Rebase w3
             \<and> (case pullThenPush E b Rebase w3 of
                  (Inr _, _) \<Rightarrow>
                    last (events (reconcile E (Some b) pushErr w)) =
                      SpinnerSucceed ''Rebased and pushed!''
                | (Inl finalErr, _) \<Rightarrow>
                    last (events (reconcile E (Some b) pushErr w)) =
                      SpinnerFail (''Critical failure syncing with remote: '' @ message finalErr)))"
proof -
  obtain r1 w3 where p1: "pullThenPush E b AllowUnrelatedHistories w = (r1, w3)" by force
  obtain r2 w4 where p2: "pullThenPush E b Rebase w3 = (r2, w4)" by force
  note u = reconcile_unfold [OF assms, of E w]
  show ?thesis
  proof (cases r1)
    case (Inr u1)
    then show ?thesis
      using u p1 by (simp add: pullPushBlock try_catch_def outcome_def events_def)
  next
    case (Inl pullErr)
    note r1 = this
    show ?thesis
    proof (cases r2)
      case (Inr u2)
      then show ?thesis
        using u p1 p2 r1
        by (simp add: pullPushBlock await_emit try_catch_def outcome_def events_def prepend_def)
    next
      case (Inl finalErr)
      then show ?thesis
        using u p1 p2 r1
        by (simp add: pullPushBlock await_emit try_catch_def outcome_def events_def prepend_def
              emit_def)
    qed
  qed
qed

lemma remoteAheadCalls_no_unrelated_pull: "\<not> list_ex is_unrelated_pull (remoteAheadCalls E w)"
  by (simp add: remoteAheadCalls_def split: prod.splits sum.splits)

text \<open>
  Claim C2, as amended. When the push of the sync step (\<^verbatim>\<open>push origin <branch> -u\<close>,
  line 109, for a non-empty branch name) fails with a message containing "rejected",
  the promise resolves and the next call is the pull with allow-unrelated-histories,
  followed by a push with \<^verbatim>\<open>-u\<close> if that pull succeeds. If both succeed, no rebase is
  attempted and "Reconciled and pushed!" is reported. Only if the pull or that push
  fails does the pull with rebase follow, then (if it succeeds) a push with
  \<^verbatim>\<open>-u\<close>; the critical sync failure is reported only when that second attempt has
  failed too. When the initial plain push fails with a message that contains
  "rejected" and neither "No configured push destination" nor "no upstream branch",
  the recovery reads the branch, pulls with rebase and pushes plainly, and no pull
  with allow-unrelated-histories is attempted.
\<close>

theorem rejected_push_recovery:
  "((hasOrigin \<or> truthy remoteUrl)
      \<and> git_revparse E [''--abbrev-ref'', ''HEAD''] w = (Inr b, w1)
      \<and> b \<noteq> []
      \<and> git_push E (Some (''origin'', b, [''-u''])) w1 = (Inl pushErr, w2)
      \<and> str_includes (message pushErr) ''rejected''
    \<longrightarrow>
      outcome (syncWithRemote E hasOrigin remoteUrl w) = Inr ()
      \<and> (case pullThenPush E b AllowUnrelatedHistories w2 of
          (Inr _, w3) \<Rightarrow>
             calls (events (syncWithRemote E hasOrigin remoteUrl w)) =
               [RevParse [''--abbrev-ref'', ''HEAD''], Push (Some (''origin'', b, [''-u'']))]
               @ pullThenPushCalls E b AllowUnrelatedHistories w2
             \<and> last (events (syncWithRemote E hasOrigin remoteUrl w)) =
                 SpinnerSucceed ''Reconciled and pushed!''
        | (Inl pullErr, w3) \<Rightarrow>
             calls (events (syncWithRemote E hasOrigin remoteUrl w)) =
               [RevParse [''--abbrev-ref'', ''HEAD''], Push (Some (''origin'', b, [''-u'']))]
               @ pullThenPushCalls E b AllowUnrelatedHistories w2
               @ pullThenPushCalls E b Rebase w3
             \<and> (case pullThenPush E b Rebase w3 of
                  (Inr _, _) \<Rightarrow>
                    last (events (syncWithRemote E hasOrigin remoteUrl w)) =
                      SpinnerSucceed ''Rebased and pushed!''
                | (Inl finalErr, _) \<Rightarrow>
                    last (events (syncWithRemote E hasOrigin remoteUrl w)) =
                      SpinnerFail (''Critical failure syncing with remote: ''
                                     @ message finalErr))))
   \<and> (git_push E None v = (Inl e, v1)
      \<and> str_includes (message e) ''rejected''
      \<and> \<not> str_includes (message e) ''No configured push destination''
      \<and> \<not> str_includes (message e) ''no upstream branch''
    \<longrightarrow>
      outcome (pushChanges E v) = Inr ()
      \<and> calls (events (pushChanges E v)) = Push None # remoteAheadCalls E v1
      \<and> \<not> list_ex is_unrelated_pull (calls (events (pushChanges E v))))"
proof (intro conjI impI)
  assume h: "(hasOrigin \<or> truthy remoteUrl)
      \<and> git_revparse E [''--abbrev-ref'', ''HEAD''] w = (Inr b, w1)
      \<and> b \<noteq> []
      \<and> git_push E (Some (''origin'', b, [''-u''])) w1 = (Inl pushErr, w2)
      \<and> str_includes (message pushErr) ''rejected''"
  then have h1: "hasOrigin \<or> truthy remoteUrl"
    and h2: "git_revparse E [''--abbrev-ref'', ''HEAD''] w = (Inr b, w1)"
    and h3: "b \<noteq> []"
    and h4: "git_push E (Some (''origin'', b, [''-u''])) w1 = (Inl pushErr, w2)"
    and h5: "str_includes (message pushErr) ''rejected''"
    by blast+
  note s = syncWithRemote_push_fails [OF h1 h2 h4]
  note r = reconcile_rejected [OF h5 h3, of E w2]
  have ne: "events (reconcile E (Some b) pushErr w2) \<noteq> []"
    using reconcile_unfold [OF h5 h3, of E w2] by (simp add: events_def prepend_def)
  show "outcome (syncWithRemote E hasOrigin remoteUrl w) = Inr ()"
    using s r by simp
  show "case pullThenPush E b AllowUnrelatedHistories w2 of
          (Inr _, w3) \<Rightarrow>
             calls (events (syncWithRemote E hasOrigin remoteUrl w)) =
               [RevParse [''--abbrev-ref'', ''HEAD''], Push (Some (''origin'', b, [''-u'']))]
               @ pullThenPushCalls E b AllowUnrelatedHistories w2
             \<and> last (events (syncWithRemote E hasOrigin remoteUrl w)) =
                 SpinnerSucceed ''Reconciled and pushed!''
        | (Inl pullErr, w3) \<Rightarrow>
             calls (events (syncWithRemote E hasOrigin remoteUrl w)) =
               [RevParse [''--abbrev-ref'', ''HEAD''], Push (Some (''origin'', b, [''-u'']))]
               @ pullThenPushCalls E b AllowUnrelatedHistories w2
               @ pullThenPushCalls E b Rebase w3
             \<and> (case pullThenPush E b Rebase w3 of
                  (Inr _, _) \<Rightarrow>
                    last (events (syncWithRemote E hasOrigin remoteUrl w)) =
                      SpinnerSucceed ''Rebased and pushed!''
                | (Inl finalErr, _) \<Rightarrow>
                    last (events (syncWithRemote E hasOrigin remoteUrl w)) =
                      SpinnerFail (''Critical failure syncing with remote: ''
                                     @ message finalErr))"
    using s r ne by (auto split: prod.splits sum.splits)
next
  assume g: "git_push E None v = (Inl e, v1)
      \<and> str_includes (message e) ''rejected''
      \<and> \<not> str_includes (message e) ''No configured push destination''
      \<and> \<not> str_includes (message e) ''no upstream branch''"
  have p: "pushChanges E v =
      prepend [SpinnerStart ''Pushing changes...'', Call (Push None)] (remoteAhead E v1)"
    using g by (intro pushChanges_remoteAhead) blast+
  show "outcome (pushChanges E v) = Inr ()"
    using p remoteAhead_calls [of E v1] by simp
  show c: "calls (events (pushChanges E v)) = Push None # remoteAheadCalls E v1"
    using p remoteAhead_calls [of E v1] by simp
  show "\<not> list_ex is_unrelated_pull (calls (events (pushChanges E v)))"
    using c remoteAheadCalls_no_unrelated_pull [of E v1] by simp
qed

theorem rejected_push_recovery_witness:
  "calls (events (syncWithRemote stub True None rejected_sync_script)) =
       [RevParse [''--abbrev-ref'', ''HEAD''], Push (Some (''origin'', ''dev'', [''-u''])),
        Pull ''origin'' ''dev'' AllowUnrelatedHistories,
        Pull ''origin'' ''dev'' Rebase, Push (Some (''origin'', ''dev'', [''-u'']))]
   \<and> last (events (syncWithRemote stub True None rejected_sync_script)) =
       SpinnerFail
         ''Critical failure syncing with remote: ! [rejected] dev -> dev (non-fast-forward)''
   \<and> syncWithRemote stub True None rejected_sync_script =
       (Inr (), [],
        [SpinnerStart ''Syncing with remote...'', Call (RevParse [''--abbrev-ref'', ''HEAD'']),
         Call (Push (Some (''origin'', ''dev'', [''-u'']))),
         SpinnerText ''Remote contains changes. Reconciling...'',
         Call (Pull ''origin'' ''dev'' AllowUnrelatedHistories),
         SpinnerText ''Trying rebase...'',
         Call (Pull ''origin'' ''dev'' Rebase),
         Call (Push (Some (''origin'', ''dev'', [''-u'']))),
         SpinnerFail
           ''Critical failure syncing with remote: ! [rejected] dev -> dev (non-fast-forward)''])
   \<and> calls (events (pushChanges stub
         [Fails ''! [rejected] dev -> dev (fetch first)'', Name ''dev''])) =
       [Push None, RevParse [''--abbrev-ref'', ''HEAD''], Pull ''origin'' ''dev'' Rebase, Push None]
   \<and> \<not> list_ex is_unrelated_pull (calls (events (pushChanges stub
         [Fails ''! [rejected] dev -> dev (fetch first)'', Name ''dev''])))"
proof -
  note t = rejected_push_recovery [where hasOrigin = True and remoteUrl = None and E = stub
      and w = rejected_sync_script and b = "''dev''" and ?w1.0 = "tl rejected_sync_script"
      and pushErr = "Error ''! [rejected] dev -> dev (fetch first)''"
      and ?w2.0 = "tl (tl rejected_sync_script)"
      and v = "[Fails ''! [rejected] dev -> dev (fetch first)'', Name ''dev'']"
      and e = "Error ''! [rejected] dev -> dev (fetch first)''" and ?v1.0 = "[Name ''dev'']"]
  have h: "(True \<or> truthy None)
      \<and> git_revparse stub [''--abbrev-ref'', ''HEAD''] rejected_sync_script
          = (Inr ''dev'', tl rejected_sync_script)
      \<and> ''dev'' \<noteq> []
      \<and> git_push stub (Some (''origin'', ''dev'', [''-u''])) (tl rejected_sync_script)
          = (Inl (Error ''! [rejected] dev -> dev (fetch first)''), tl (tl rejected_sync_script))
      \<and> str_includes (message (Error ''! [rejected] dev -> dev (fetch first)'')) ''rejected''"
    by (simp add: stub_def rejected_sync_script_def)
  have g: "git_push stub None [Fails ''! [rejected] dev -> dev (fetch first)'', Name ''dev'']
          = (Inl (Error ''! [rejected] dev -> dev (fetch first)''), [Name ''dev''])
      \<and> str_includes (message (Error ''! [rejected] dev -> dev (fetch first)'')) ''rejected''
      \<and> \<not> str_includes (message (Error ''! [rejected] dev -> dev (fetch first)''))
            ''No configured push destination''
      \<and> \<not> str_includes (message (Error ''! [rejected] dev -> dev (fetch first)''))
            ''no upstream branch''"
    by (simp add: stub_def)
  have a: "outcome (syncWithRemote stub True None rejected_sync_script) = Inr ()
      \<and> (case pullThenPush stub ''dev'' AllowUnrelatedHistories (tl (tl rejected_sync_script)) of
          (Inr _, w3) \<Rightarrow>
             calls (events (syncWithRemote stub True None rejected_sync_script)) =
               [RevParse [''--abbrev-ref'', ''HEAD''], Push (Some (''origin'', ''dev'', [''-u'']))]
               @ pullThenPushCalls stub ''dev'' AllowUnrelatedHistories (tl (tl rejected_sync_script))
             \<and> last (events (syncWithRemote stub True None rejected_sync_script)) =
                 SpinnerSucceed ''Reconciled and pushed!''
        | (Inl pullErr, w3) \<Rightarrow>
             calls (events (syncWithRemote stub True None rejected_sync_script)) =
               [RevParse [''--abbrev-ref'', ''HEAD''], Push (Some (''origin'', ''dev'', [''-u'']))]
               @ pullThenPushCalls stub ''dev'' AllowUnrelatedHistories (tl (tl rejected_sync_script))
               @ pullThenPushCalls stub ''dev'' Rebase w3
             \<and> (case pullThenPush stub ''dev'' Rebase w3 of
                  (Inr _, _) \<Rightarrow>
                    last (events (syncWithRemote stub True None rejected_sync_script)) =
                      SpinnerSucceed ''Rebased and pushed!''
                | (Inl finalErr, _) \<Rightarrow>
                    last (events (syncWithRemote stub True None rejected_sync_script)) =
                      SpinnerFail (''Critical failure syncing with remote: ''
                                     @ message finalErr)))"
    by (rule t [THEN conjunct1, THEN mp, OF h])
  have c: "calls (events (syncWithRemote stub True None rejected_sync_script)) =
       [RevParse [''--abbrev-ref'', ''HEAD''], Push (Some (''origin'', ''dev'', [''-u''])),
        Pull ''origin'' ''dev'' AllowUnrelatedHistories,
        Pull ''origin'' ''dev'' Rebase, Push (Some (''origin'', ''dev'', [''-u'']))]"
     and l: "last (events (syncWithRemote stub True None rejected_sync_script)) =
       SpinnerFail
         ''Critical failure syncing with remote: ! [rejected] dev -> dev (non-fast-forward)''"
    using a by (simp_all add: pullThenPush_def pullThenPushCalls_def stub_def
          rejected_sync_script_def)
  have e: "syncWithRemote stub True None rejected_sync_script =
       (Inr (), [],
        [SpinnerStart ''Syncing with remote...'', Call (RevParse [''--abbrev-ref'', ''HEAD'']),
         Call (Push (Some (''origin'', ''dev'', [''-u'']))),
         SpinnerText ''Remote contains changes. Reconciling...'',
         Call (Pull ''origin'' ''dev'' AllowUnrelatedHistories),
         SpinnerText ''Trying rebase...'',
         Call (Pull ''origin'' ''dev'' Rebase),
         Call (Push (Some (''origin'', ''dev'', [''-u'']))),
         SpinnerFail
           ''Critical failure syncing with remote: ! [rejected] dev -> dev (non-fast-forward)''])"
    by (simp add: push_defs io_defs stub_def rejected_sync_script_def)
  have b: "outcome (pushChanges stub
         [Fails ''! [rejected] dev -> dev (fetch first)'', Name ''dev'']) = Inr ()
      \<and> calls (events (pushChanges stub
         [Fails ''! [rejected] dev -> dev (fetch first)'', Name ''dev''])) =
          Push None # remoteAheadCalls stub [Name ''dev'']
      \<and> \<not> list_ex is_unrelated_pull (calls (events (pushChanges stub
         [Fails ''! [rejected] dev -> dev (fetch first)'', Name ''dev''])))"
    by (rule t [THEN conjunct2, THEN mp, OF g])
  have d: "calls (events (pushChanges stub
         [Fails ''! [rejected] dev -> dev (fetch first)'', Name ''dev''])) =
       [Push None, RevParse [''--abbrev-ref'', ''HEAD''], Pull ''origin'' ''dev'' Rebase, Push None]"
    using b by (simp add: remoteAheadCalls_def stub_def)
  have n: "\<not> list_ex is_unrelated_pull (calls (events (pushChanges stub
         [Fails ''! [rejected] dev -> dev (fetch first)'', Name ''dev''])))"
    using b by (elim conjE)
  show ?thesis using c l e d n by (intro conjI)
qed

text \<open>
  The claim speaks of every push failure whose message contains "rejected". For the
  initial plain push it fails: the recovery there pulls with rebase at once, and no
  pull with allow-unrelated-histories is ever attempted.
\<close>

theorem pushChanges_rejected_counterexample:
  "str_includes ''! [rejected] dev -> dev (fetch first)'' ''rejected''
   \<and> calls (events (pushChanges stub [Fails ''! [rejected] dev -> dev (fetch first)'', Name ''dev''])) =
       [Push None, RevParse [''--abbrev-ref'', ''HEAD''], Pull ''origin'' ''dev'' Rebase, Push None]
   \<and> Pull ''origin'' ''dev'' AllowUnrelatedHistories
       \<notin> set (calls (events
             (pushChanges stub [Fails ''! [rejected] dev -> dev (fetch first)'', Name ''dev''])))"
  by (simp add: push_defs io_defs stub_def events_def)

text \<open>
  Claim C3. When the plain push fails for want of an upstream and a remote named origin
  exists, no prompt is issued in the whole run, whatever the environment answers. The
  next call reads the current branch, and if that succeeds the call after it is
  \<^verbatim>\<open>push origin <branch> -u\<close>. If that push fails, the error is reported as
  "Failed to link upstream: ..." and the sync step follows: it reads the branch again
  and pushes to origin with \<^verbatim>\<open>-u\<close>.
\<close>

theorem pushChanges_origin_exists:
  assumes "git_push E None w = (Inl e, w1)"
    and "str_includes (message e) ''No configured push destination''
         \<or> str_includes (message e) ''no upstream branch''"
    and "git_getRemotes E w1 = (Inr remotes, w2)"
    and "find (\<lambda>r. remote_name r = ''origin'') remotes = Some r0"
  shows "\<not> list_ex is_prompt (events (pushChanges E w))
    \<and> (\<exists>rest. calls (events (pushChanges E w)) =
          Push None # GetRemotes # RevParse [''--abbrev-ref'', ''HEAD''] # rest)
    \<and> (\<forall>b w3. git_revparse E [''--abbrev-ref'', ''HEAD''] w2 = (Inr b, w3) \<longrightarrow>
         (\<exists>rest. calls (events (pushChanges E w)) =
            Push None # GetRemotes # RevParse [''--abbrev-ref'', ''HEAD'']
              # Push (Some (''origin'', b, [''-u''])) # rest)
         \<and> (\<forall>linkErr w4. git_push E (Some (''origin'', b, [''-u''])) w3 = (Inl linkErr, w4) \<longrightarrow>
              (\<exists>rest. events (pushChanges E w) =
                 [SpinnerStart ''Pushing changes...'', Call (Push None),
                  SpinnerFail ''No remote/upstream configured.'', Call GetRemotes,
                  SpinnerText (''Remote '' @ quoted ''origin''
                                 @ '' found. Attempting to link upstream...''),
                  Call (RevParse [''--abbrev-ref'', ''HEAD'']),
                  Call (Push (Some (''origin'', b, [''-u'']))),
                  SpinnerFail (''Failed to link upstream: '' @ message linkErr),
                  SpinnerStart ''Syncing with remote...'',
                  Call (RevParse [''--abbrev-ref'', ''HEAD''])] @ rest
               \<and> (\<forall>b' w5. git_revparse E [''--abbrev-ref'', ''HEAD''] w4 = (Inr b', w5) \<longrightarrow>
                     (\<exists>rest'. rest = Call (Push (Some (''origin'', b', [''-u'']))) # rest')))))"
proof -
  have p: "pushChanges E w =
      prepend [SpinnerStart ''Pushing changes...'', Call (Push None),
               SpinnerFail ''No remote/upstream configured.'', Call GetRemotes]
        (linkUpstream E w2)"
    using pushChanges_noUpstream [OF assms(1,2)] noUpstream_hasOrigin [OF assms(3,4)] by simp
  obtain rb w3 where rp: "git_revparse E [''--abbrev-ref'', ''HEAD''] w2 = (rb, w3)" by force
  show ?thesis
  proof (cases rb)
    case (Inl e3)
    have l: "linkUpstream E w2 =
           prepend [SpinnerText (''Remote '' @ quoted ''origin''
                                   @ '' found. Attempting to link upstream...''),
                    Call (RevParse [''--abbrev-ref'', ''HEAD'']),
                    SpinnerFail (''Failed to link upstream: '' @ message e3)]
             (syncWithRemote E True None w3)"
      using rp Inl by (intro linkUpstream_revparse_fails) simp
    show ?thesis
      using p l rp Inl syncWithRemote_no_prompt [of E True None w3]
      by (simp add: quoted_def)
  next
    case (Inr b)
    note rb = this
    obtain rq w4 where ps: "git_push E (Some (''origin'', b, [''-u''])) w3 = (rq, w4)" by force
    show ?thesis
    proof (cases rq)
      case (Inl linkErr)
      have l: "linkUpstream E w2 =
           prepend [SpinnerText (''Remote '' @ quoted ''origin''
                                   @ '' found. Attempting to link upstream...''),
                    Call (RevParse [''--abbrev-ref'', ''HEAD'']),
                    Call (Push (Some (''origin'', b, [''-u'']))),
                    SpinnerFail (''Failed to link upstream: '' @ message linkErr)]
             (syncWithRemote E True None w4)"
        using rp rb ps Inl by (intro linkUpstream_push_fails) simp_all
      obtain rest where s: "events (syncWithRemote E True None w4) =
            SpinnerStart ''Syncing with remote...'' # Call (RevParse [''--abbrev-ref'', ''HEAD'']) # rest"
          "\<forall>b w1. git_revparse E [''--abbrev-ref'', ''HEAD''] w4 = (Inr b, w1) \<longrightarrow>
                (\<exists>rest'. rest = Call (Push (Some (''origin'', b, [''-u'']))) # rest')"
        using syncWithRemote_starts [of True None E w4] by auto
      show ?thesis
        using p l rp rb ps Inl s syncWithRemote_no_prompt [of E True None w4]
        by (simp add: quoted_def)
    next
      case (Inr u)
      have l: "linkUpstream E w2 =
           (Inr (), w4,
            [SpinnerText (''Remote '' @ quoted ''origin''
                            @ '' found. Attempting to link upstream...''),
             Call (RevParse [''--abbrev-ref'', ''HEAD'']),
             Call (Push (Some (''origin'', b, [''-u'']))),
             SpinnerSucceed ''Upstream linked and changes pushed!''])"
        using rp rb ps Inr by (intro linkUpstream_succeeds) simp_all
      show ?thesis
        using p l rp rb ps Inr by (simp add: quoted_def events_def)
    qed
  qed
qed

theorem pushChanges_origin_exists_witness:
  "\<not> list_ex is_prompt (events (pushChanges stub origin_script))
   \<and> calls (events (pushChanges stub origin_script)) =
       [Push None, GetRemotes, RevParse [''--abbrev-ref'', ''HEAD''],
        Push (Some (''origin'', ''dev'', [''-u''])),
        RevParse [''--abbrev-ref'', ''HEAD''],
        Push (Some (''origin'', ''dev'', [''-u'']))]
   \<and> SpinnerFail ''Failed to link upstream: error: failed to push some refs''
        \<in> set (events (pushChanges stub origin_script))"
proof -
  have h1: "git_push stub None origin_script =
      (Inl (Error ''fatal: The current branch dev has no upstream branch.''), tl origin_script)"
    by (simp add: stub_def origin_script_def)
  have h2: "str_includes (message (Error ''fatal: The current branch dev has no upstream branch.''))
         ''No configured push destination''
       \<or> str_includes (message (Error ''fatal: The current branch dev has no upstream branch.''))
         ''no upstream branch''"
    by simp
  have h3: "git_getRemotes stub (tl origin_script) =
      (Inr [\<lparr>remote_name = ''origin''\<rparr>], tl (tl origin_script))"
    by (simp add: stub_def origin_script_def)
  have h4: "find (\<lambda>r. remote_name r = ''origin'') [\<lparr>remote_name = ''origin''\<rparr>] =
      Some \<lparr>remote_name = ''origin''\<rparr>"
    by simp
  have a: "\<not> list_ex is_prompt (events (pushChanges stub origin_script))"
    using pushChanges_origin_exists [OF h1 h2 h3 h4] by (rule conjunct1)
  have e: "events (pushChanges stub origin_script) =
      [SpinnerStart ''Pushing changes...'', Call (Push None),
       SpinnerFail ''No remote/upstream configured.'', Call GetRemotes,
       SpinnerText (''Remote '' @ quoted ''origin'' @ '' found. Attempting to link upstream...''),
       Call (RevParse [''--abbrev-ref'', ''HEAD'']),
       Call (Push (Some (''origin'', ''dev'', [''-u'']))),
       SpinnerFail ''Failed to link upstream: error: failed to push some refs'',
       SpinnerStart ''Syncing with remote...'',
       Call (RevParse [''--abbrev-ref'', ''HEAD'']),
       Call (Push (Some (''origin'', ''dev'', [''-u'']))),
       SpinnerSucceed ''Remote configured and changes pushed!'']"
    by (simp add: push_defs io_defs stub_def origin_script_def events_def)
  show ?thesis using a by (simp add: e)
qed

text \<open>
  Claim C4. When the plain push fails for want of an upstream and no remote named
  origin exists, the operator is asked for a URL. On an empty answer the promise
  resolves and nothing more is called: no add-remote, no push. On a non-empty answer
  exactly one add-remote call occurs in the whole run, naming the remote origin, and
  the branch is read next whether or not adding succeeded; when reading the branch and
  the push succeed, the run ends with exactly one push, with \<^verbatim>\<open>-u\<close>.
\<close>

theorem pushChanges_no_origin:
  assumes "git_push E None w = (Inl e, w1)"
    and "str_includes (message e) ''No configured push destination''
         \<or> str_includes (message e) ''no upstream branch''"
    and "git_getRemotes E w1 = (Inr remotes, w2)"
    and "find (\<lambda>r. remote_name r = ''origin'') remotes = None"
    and "prompt_input E
           ''Enter the GitHub/Remote URL to connect to (or leave empty to skip):'' w2 = (Inr url, w3)"
  shows "(url = [] \<longrightarrow>
            pushChanges E w =
              (Inr (), w3,
               [SpinnerStart ''Pushing changes...'', Call (Push None),
                SpinnerFail ''No remote/upstream configured.'', Call GetRemotes,
                ConsoleLog (CHR 0x0A #
                  ''It looks like this repository is not connected to a remote server.''),
                PromptInput
                  ''Enter the GitHub/Remote URL to connect to (or leave empty to skip):'']))
       \<and> (url \<noteq> [] \<longrightarrow>
            length (filter is_add_remote (events (pushChanges E w))) = 1
            \<and> (\<exists>rest. calls (events (pushChanges E w)) =
                  Push None # GetRemotes # AddRemote ''origin'' url
                    # RevParse [''--abbrev-ref'', ''HEAD''] # rest)
            \<and> (\<forall>ra w4 b w5 u w6.
                  git_addRemote E ''origin'' url w3 = (ra, w4)
                  \<and> git_revparse E [''--abbrev-ref'', ''HEAD''] w4 = (Inr b, w5)
                  \<and> git_push E (Some (''origin'', b, [''-u''])) w5 = (Inr u, w6)
                  \<longrightarrow> outcome (pushChanges E w) = Inr ()
                      \<and> calls (events (pushChanges E w)) =
                          [Push None, GetRemotes, AddRemote ''origin'' url,
                           RevParse [''--abbrev-ref'', ''HEAD''],
                           Push (Some (''origin'', b, [''-u'']))]))"
proof -
  have p: "pushChanges E w =
      prepend [SpinnerStart ''Pushing changes...'', Call (Push None),
               SpinnerFail ''No remote/upstream configured.'', Call GetRemotes]
        (promptForRemote E w2)"
    using pushChanges_noUpstream [OF assms(1,2)] noUpstream_noOrigin [OF assms(3,4)] by simp
  show ?thesis
  proof (cases "url = []")
    case True
    then show ?thesis
      using p promptForRemote_skipped [of E w2 w3] assms(5) by simp
  next
    case False
    obtain ra w4 where ar: "git_addRemote E ''origin'' url w3 = (ra, w4)" by force
    note q = promptForRemote_url [OF assms(5) False ar]
    obtain rest where s: "events (syncWithRemote E False (Some url) w4) =
            SpinnerStart ''Syncing with remote...'' # Call (RevParse [''--abbrev-ref'', ''HEAD'']) # rest"
      using syncWithRemote_starts [of False "Some url" E w4] False by auto
    have n: "filter is_add_remote (events (syncWithRemote E False (Some url) w4)) = []"
      using syncWithRemote_no_add_remote by (rule no_match_filter)
    have 1: "length (filter is_add_remote (events (pushChanges E w))) = 1"
      using p q n by (cases ra) simp_all
    have 2: "\<exists>rest. calls (events (pushChanges E w)) =
                  Push None # GetRemotes # AddRemote ''origin'' url
                    # RevParse [''--abbrev-ref'', ''HEAD''] # rest"
      using p q s by (cases ra) simp_all
    have 3: "outcome (pushChanges E w) = Inr ()
                      \<and> calls (events (pushChanges E w)) =
                          [Push None, GetRemotes, AddRemote ''origin'' url,
                           RevParse [''--abbrev-ref'', ''HEAD''],
                           Push (Some (''origin'', b, [''-u'']))]"
      if "git_revparse E [''--abbrev-ref'', ''HEAD''] w4 = (Inr b, w5)"
        and "git_push E (Some (''origin'', b, [''-u''])) w5 = (Inr u, w6)" for b w5 u w6
    proof -
      have "syncWithRemote E False (Some url) w4 =
           (Inr (), w6,
            [SpinnerStart ''Syncing with remote...'', Call (RevParse [''--abbrev-ref'', ''HEAD'']),
             Call (Push (Some (''origin'', b, [''-u'']))),
             SpinnerSucceed ''Remote configured and changes pushed!''])"
        using that False by (intro syncWithRemote_succeeds) simp_all
      then show ?thesis
        using p q by (cases ra) (simp_all add: outcome_def events_def)
    qed
    show ?thesis
      using False 1 2 3 ar by auto
  qed
qed

theorem pushChanges_no_origin_witness:
  "length (filter is_add_remote (events (pushChanges stub no_origin_script))) = 1
   \<and> outcome (pushChanges stub no_origin_script) = Inr ()
   \<and> calls (events (pushChanges stub no_origin_script)) =
       [Push None, GetRemotes, AddRemote ''origin'' ''https://example.com/repo.git'',
        RevParse [''--abbrev-ref'', ''HEAD''], Push (Some (''origin'', ''dev'', [''-u'']))]
   \<and> outcome (pushChanges stub skip_script) = Inr ()
   \<and> calls (events (pushChanges stub skip_script)) = [Push None, GetRemotes]"
proof -
  have m: "str_includes (message (Error ''fatal: No configured push destination.''))
         ''No configured push destination''
       \<or> str_includes (message (Error ''fatal: No configured push destination.''))
         ''no upstream branch''"
    by simp
  have f: "find (\<lambda>r. remote_name r = ''origin'') [] = None" by simp
  have h1: "git_push stub None no_origin_script =
      (Inl (Error ''fatal: No configured push destination.''), tl no_origin_script)"
    by (simp add: stub_def no_origin_script_def)
  have h3: "git_getRemotes stub (tl no_origin_script) = (Inr [], tl (tl no_origin_script))"
    by (simp add: stub_def no_origin_script_def)
  have h5: "prompt_input stub
           ''Enter the GitHub/Remote URL to connect to (or leave empty to skip):''
           (tl (tl no_origin_script)) =
      (Inr ''https://example.com/repo.git'', tl (tl (tl no_origin_script)))"
    by (simp add: stub_def no_origin_script_def)
  note t = pushChanges_no_origin [OF h1 m h3 f h5]
  have a: "length (filter is_add_remote (events (pushChanges stub no_origin_script))) = 1"
    using t by simp
  have b: "outcome (pushChanges stub no_origin_script) = Inr ()
       \<and> calls (events (pushChanges stub no_origin_script)) =
         [Push None, GetRemotes, AddRemote ''origin'' ''https://example.com/repo.git'',
          RevParse [''--abbrev-ref'', ''HEAD''], Push (Some (''origin'', ''dev'', [''-u'']))]"
    using t by (simp add: stub_def no_origin_script_def)
  have k1: "git_push stub None skip_script =
      (Inl (Error ''fatal: No configured push destination.''), tl skip_script)"
    by (simp add: stub_def skip_script_def)
  have k3: "git_getRemotes stub (tl skip_script) = (Inr [], tl (tl skip_script))"
    by (simp add: stub_def skip_script_def)
  have k5: "prompt_input stub
           ''Enter the GitHub/Remote URL to connect to (or leave empty to skip):''
           (tl (tl skip_script)) = (Inr [], tl (tl (tl skip_script)))"
    by (simp add: stub_def skip_script_def)
  have c: "outcome (pushChanges stub skip_script) = Inr ()
       \<and> calls (events (pushChanges stub skip_script)) = [Push None, GetRemotes]"
    using pushChanges_no_origin [OF k1 m k3 f k5] by (simp add: outcome_def events_def)
  show ?thesis using a b c by simp
qed

section \<open>The threshold waiter and the main loop\<close>

text \<open>When a status read fails: the directory is no repository, or a query rejects.\<close>

lemma checkGitStatus_cases:
  "checkGitStatus E w =
     (case git_checkIsRepo E w of
        (Inl e, w1) \<Rightarrow>
          (Inr None, w1,
           [Call CheckIsRepo, ConsoleError (''Error checking git status: '' @ message e)])
      | (Inr isRepo, w1) \<Rightarrow>
          if \<not> isRepo then
            (Inr None, w1,
             [Call CheckIsRepo, ConsoleError ''Current directory is not a git repository.''])
          else
            (case git_status E w1 of
               (Inl e, w2) \<Rightarrow>
                 (Inr None, w2,
                  [Call CheckIsRepo, Call Status,
                   ConsoleError (''Error checking git status: '' @ message e)])
             | (Inr files, w2) \<Rightarrow> (Inr (Some files), w2, [Call CheckIsRepo, Call Status])))"
  unfolding checkGitStatus_def
  by (simp add: await_def try_catch_def call_def emit_def ret_def split: prod.splits sum.splits)

lemma checkGitStatus_resolves:
  "\<exists>files w1 evs. checkGitStatus E w = (Inr files, w1, evs)
     \<and> (calls evs = [CheckIsRepo] \<or> calls evs = [CheckIsRepo, Status])"
  unfolding checkGitStatus_def
  by (simp add: await_def try_catch_def call_def emit_def ret_def split: prod.splits sum.splits)

lemma events_tuple: "events (r, w, evs) = evs"
  by (simp add: events_def)

lemma outcome_tuple: "outcome (r, w, evs) = r"
  by (simp add: outcome_def)

text \<open>One turn of the event loop of \<open>waitForThreshold\<close>.\<close>

lemma pollLoop_turn: "pollStep E t s = Inr s1 \<Longrightarrow> pollLoop E t s = pollLoop E t s1"
  by (subst pollLoop.simps) simp

lemma pollLoop_resolved: "pollStep E t s = Inl r \<Longrightarrow> pollLoop E t s = Some r"
  by (subst pollLoop.simps) simp

lemma pollStep_fires:
  assumes "git_checkIsRepo E w = (r, w1)"
  shows "pollStep E t (w, k, [], acc) =
           Inr (w1, Suc k, [IsRepoReply (5000 * (k + 1) + latency E w) r],
                acc @ [Timer 5000, Call CheckIsRepo])"
  using assms by (simp add: pollStep_def nextSettled_def)

lemma nextSettled_single: "due f < 5000 * (k + 1) \<Longrightarrow> nextSettled k [f] = Some f"
  by (simp add: nextSettled_def)

lemma pollLoop_round:
  assumes "readTime E w < 5000" and "checkGitStatus E w = (Inr files, w1, evs)"
  shows "pollLoop E threshold (w, k, [], acc) =
     (if threshold \<le> int (fileCount files) then
        Some (Inr files, w1,
              acc @ Timer 5000 # evs @
                [WaitingText threshold (fileCount files),
                 SpinnerSucceed (''Threshold reached! Found '' @ show_nat (fileCount files)
                                   @ '' files.'')])
      else
        pollLoop E threshold
          (w1, Suc k, [], acc @ Timer 5000 # evs @ [WaitingText threshold (fileCount files)]))"
proof -
  obtain r wa where a: "git_checkIsRepo E w = (r, wa)" by force
  obtain r2 wb where b: "git_status E wa = (r2, wb)" by force
  let ?f = "IsRepoReply (5000 * (k + 1) + latency E w) r"
  let ?acc1 = "acc @ [Timer 5000, Call CheckIsRepo]"
  have s1: "pollLoop E threshold (w, k, [], acc) = pollLoop E threshold (wa, Suc k, [?f], ?acc1)"
    by (intro pollLoop_turn pollStep_fires a)
  have l1: "latency E w < 5000"
    using assms(1) a by (auto simp: readTime_def split: sum.splits if_splits)
  have n1: "nextSettled (Suc k) [?f] = Some ?f"
    using l1 by (intro nextSettled_single) simp
  show ?thesis
  proof (cases r)
    case (Inl e)
    have c: "files = None" "w1 = wa"
        "evs = [Call CheckIsRepo, ConsoleError (''Error checking git status: '' @ message e)]"
      using assms(2) a Inl by (simp_all add: checkGitStatus_cases)
    have "pollStep E threshold (wa, Suc k, [?f], ?acc1) =
        pollDone threshold None
          (wa, Suc k, [], ?acc1 @ [ConsoleError (''Error checking git status: '' @ message e)])"
      using n1 Inl by (simp add: pollStep_def)
    then show ?thesis
      unfolding s1 c
      by (cases "threshold \<le> 0")
         (simp_all add: pollDone_def pollLoop_turn pollLoop_resolved fileCount_def)
  next
    case (Inr isRepo)
    note r = this
    show ?thesis
    proof (cases isRepo)
      case False
      have c: "files = None" "w1 = wa"
          "evs = [Call CheckIsRepo, ConsoleError ''Current directory is not a git repository.'']"
        using assms(2) a r False by (simp_all add: checkGitStatus_cases)
      have "pollStep E threshold (wa, Suc k, [?f], ?acc1) =
          pollDone threshold None
            (wa, Suc k, [], ?acc1 @ [ConsoleError ''Current directory is not a git repository.''])"
        using n1 r False by (simp add: pollStep_def)
      then show ?thesis
        unfolding s1 c
        by (cases "threshold \<le> 0")
           (simp_all add: pollDone_def pollLoop_turn pollLoop_resolved fileCount_def)
    next
      case True
      let ?g = "StatusReply (5000 * (k + 1) + latency E w + latency E wa) r2"
      let ?acc2 = "?acc1 @ [Call Status]"
      have "pollStep E threshold (wa, Suc k, [?f], ?acc1) = Inr (wb, Suc k, [?g], ?acc2)"
        using n1 r True b by (simp add: pollStep_def)
      then have s2: "pollLoop E threshold (wa, Suc k, [?f], ?acc1) =
          pollLoop E threshold (wb, Suc k, [?g], ?acc2)"
        by (rule pollLoop_turn)
      have l2: "latency E w + latency E wa < 5000"
        using assms(1) a r True by (simp add: readTime_def)
      have n2: "nextSettled (Suc k) [?g] = Some ?g"
        using l2 by (intro nextSettled_single) simp
      show ?thesis
      proof (cases r2)
        case (Inl e)
        have c: "files = None" "w1 = wb"
            "evs = [Call CheckIsRepo, Call Status,
                    ConsoleError (''Error checking git status: '' @ message e)]"
          using assms(2) a b r True Inl by (simp_all add: checkGitStatus_cases)
        have "pollStep E threshold (wb, Suc k, [?g], ?acc2) =
            pollDone threshold None
              (wb, Suc k, [], ?acc2 @ [ConsoleError (''Error checking git status: '' @ message e)])"
          using n2 Inl by (simp add: pollStep_def)
        then show ?thesis
          unfolding s1 s2 c
          by (cases "threshold \<le> 0")
             (simp_all add: pollDone_def pollLoop_turn pollLoop_resolved fileCount_def)
      next
        case (Inr fs)
        have c: "files = Some fs" "w1 = wb" "evs = [Call CheckIsRepo, Call Status]"
          using assms(2) a b r True Inr by (simp_all add: checkGitStatus_cases)
        have "pollStep E threshold (wb, Suc k, [?g], ?acc2) =
            pollDone threshold (Some fs) (wb, Suc k, [], ?acc2)"
          using n2 Inr by (simp add: pollStep_def)
        then show ?thesis
          unfolding s1 s2 c
          by (cases "threshold \<le> int (length fs)")
             (simp_all add: pollDone_def pollLoop_turn pollLoop_resolved fileCount_def)
      qed
    qed
  qed
qed

lemma checkGitStatus_triple:
  "checkGitStatus E w =
     (Inr (pollFiles E w 0), pollWorld E w (Suc 0), events (checkGitStatus E w))"
proof -
  obtain files w1 evs where c: "checkGitStatus E w = (Inr files, w1, evs)"
    using checkGitStatus_resolves [of E w] by blast
  then show ?thesis
    by (simp add: pollFiles_def outcome_def events_def)
qed

lemma poll_shift:
  "pollFiles E w (Suc j) = pollFiles E (pollWorld E w (Suc 0)) j"
  "pollCount E w (Suc j) = pollCount E (pollWorld E w (Suc 0)) j"
  "pollRound E threshold w (Suc j) = pollRound E threshold (pollWorld E w (Suc 0)) j"
  "pollTime E w (Suc j) = pollTime E (pollWorld E w (Suc 0)) j"
  "pollWorld E w (Suc (Suc j)) = pollWorld E (pollWorld E w (Suc 0)) (Suc j)"
  by (simp_all add: pollFiles_def pollCount_def pollRound_def pollTime_def)

lemma pollLoop_next:
  assumes "pollTime E w 0 < 5000"
  shows "pollLoop E threshold (w, k, [], acc) =
     (if threshold \<le> int (pollCount E w 0) then
        Some (Inr (pollFiles E w 0), pollWorld E w (Suc 0),
              acc @ pollRound E threshold w 0 @
                [SpinnerSucceed (''Threshold reached! Found '' @ show_nat (pollCount E w 0)
                                   @ '' files.'')])
      else
        pollLoop E threshold (pollWorld E w (Suc 0), Suc k, [], acc @ pollRound E threshold w 0))"
  using pollLoop_round [OF _ checkGitStatus_triple, of E w threshold k acc] assms
  by (simp add: pollTime_def pollCount_def pollRound_def)

lemma pollLoop_first:
  "threshold \<le> int (pollCount E w k) \<Longrightarrow> (\<forall>j<k. int (pollCount E w j) < threshold) \<Longrightarrow>
   (\<forall>j\<le>k. pollTime E w j < 5000) \<Longrightarrow>
   pollLoop E threshold (w, k0, [], acc) =
     Some (Inr (pollFiles E w k), pollWorld E w (Suc k),
           acc @ concat (map (pollRound E threshold w) [0..<Suc k])
             @ [SpinnerSucceed (''Threshold reached! Found '' @ show_nat (pollCount E w k)
                                  @ '' files.'')])"
proof (induction k arbitrary: w k0 acc)
  case 0
  then show ?case
    by (simp add: pollLoop_next)
next
  case (Suc k)
  let ?w1 = "pollWorld E w (Suc 0)"
  have t0: "pollTime E w 0 < 5000" using Suc.prems(3) by blast
  have lt: "\<not> threshold \<le> int (pollCount E w 0)" using Suc.prems(2) by force
  have ih: "pollLoop E threshold (?w1, Suc k0, [], acc') =
     Some (Inr (pollFiles E ?w1 k), pollWorld E ?w1 (Suc k),
           acc' @ concat (map (pollRound E threshold ?w1) [0..<Suc k])
             @ [SpinnerSucceed (''Threshold reached! Found '' @ show_nat (pollCount E ?w1 k)
                                  @ '' files.'')])" for acc'
  proof (rule Suc.IH)
    show "threshold \<le> int (pollCount E ?w1 k)"
      using Suc.prems(1) by (simp only: poll_shift)
    show "\<forall>j<k. int (pollCount E ?w1 j) < threshold"
      using Suc.prems(2) poll_shift(2) [of E w] by (metis Suc_less_eq)
    show "\<forall>j\<le>k. pollTime E ?w1 j < 5000"
      using Suc.prems(3) poll_shift(4) [of E w] by (metis Suc_le_mono)
  qed
  have m: "map (pollRound E threshold w) [0..<Suc (Suc k)] =
      pollRound E threshold w 0 # map (pollRound E threshold ?w1) [0..<Suc k]"
    by (simp only: map_upt_Suc poll_shift)
  show ?case
    unfolding pollLoop_next [OF t0] m
    by (simp only: lt if_False ih poll_shift) simp
qed

lemma pollStep_grows:
  "pollStep E t (w, k, fl, acc) = Inr (w1, k1, fl1, acc1) \<Longrightarrow> prefix acc acc1"
  "pollStep E t (w, k, fl, acc) = Inl (r, w1, evs) \<Longrightarrow> prefix acc evs"
  by (auto simp: pollStep_def pollDone_def
        split: option.splits flight.splits sum.splits prod.splits if_splits)

lemma pollStep_sound:
  "pollStep E t s = Inl (r, w1, evs) \<Longrightarrow> \<exists>files. r = Inr files \<and> t \<le> int (fileCount files)"
  by (auto simp: pollStep_def pollDone_def
        split: option.splits flight.splits sum.splits prod.splits if_splits)

lemma pollLoop_prefix:
  assumes "pollLoop E t s = Some y"
  shows "prefix (snd (snd (snd s))) (events y)"
proof -
  have step: "prefix (snd (snd (snd s))) (events y)"
    if ih: "\<And>E t s y. f E t s = Some y \<Longrightarrow> prefix (snd (snd (snd s))) (events y)"
      and body: "(case pollStep E t s of Inl resolved \<Rightarrow> Some resolved | Inr s1 \<Rightarrow> f E t s1)
                   = Some y"
    for f :: "'a vcs \<Rightarrow> int \<Rightarrow> 'a waiting
                \<Rightarrow> ((error + changed_file list option) \<times> 'a \<times> event list) option"
      and E t s y
  proof (cases "pollStep E t s")
    case (Inl r)
    then have "r = y" using body by simp
    then show ?thesis
      using Inl pollStep_grows(2) [of E t "fst s" "fst (snd s)" "fst (snd (snd s))"
          "snd (snd (snd s))" "fst y" "fst (snd y)" "snd (snd y)"]
      by (simp add: events_def)
  next
    case (Inr s1)
    then have "f E t s1 = Some y" using body by simp
    then have "prefix (snd (snd (snd s1))) (events y)" by (rule ih)
    moreover have "prefix (snd (snd (snd s))) (snd (snd (snd s1)))"
      using Inr pollStep_grows(1) [of E t "fst s" "fst (snd s)" "fst (snd (snd s))"
          "snd (snd (snd s))" "fst s1" "fst (snd s1)" "fst (snd (snd s1))" "snd (snd (snd s1))"]
      by simp
    ultimately show ?thesis by (rule prefix_order.trans [rotated])
  qed
  show ?thesis
    by (rule pollLoop.raw_induct
          [where P = "\<lambda>E t s y. prefix (snd (snd (snd s))) (events y)", OF step assms])
qed

lemma pollLoop_sound:
  assumes "pollLoop E t s = Some y"
  shows "\<exists>files. fst y = Inr files \<and> t \<le> int (fileCount files)"
proof -
  have step: "\<exists>files. fst y = Inr files \<and> t \<le> int (fileCount files)"
    if ih: "\<And>E t s y. f E t s = Some y
              \<Longrightarrow> \<exists>files. fst y = Inr files \<and> t \<le> int (fileCount files)"
      and body: "(case pollStep E t s of Inl resolved \<Rightarrow> Some resolved | Inr s1 \<Rightarrow> f E t s1)
                   = Some y"
    for f :: "'a vcs \<Rightarrow> int \<Rightarrow> 'a waiting
                \<Rightarrow> ((error + changed_file list option) \<times> 'a \<times> event list) option"
      and E t s y
  proof (cases "pollStep E t s")
    case (Inl r)
    then have "pollStep E t s = Inl (fst y, fst (snd y), snd (snd y))" using body by simp
    then show ?thesis by (rule pollStep_sound)
  next
    case (Inr s1)
    then have "f E t s1 = Some y" using body by simp
    then show ?thesis by (rule ih)
  qed
  show ?thesis
    by (rule pollLoop.raw_induct
          [where P = "\<lambda>E t s y. \<exists>files. fst y = Inr files \<and> t \<le> int (fileCount files)",
           OF step assms])
qed

lemma pollLoop_rounds:
  "(\<forall>j<n. int (pollCount E w j) < threshold \<and> pollTime E w j < 5000) \<Longrightarrow>
   pollLoop E threshold (w, k0, [], acc) =
     pollLoop E threshold
       (pollWorld E w n, k0 + n, [], acc @ concat (map (pollRound E threshold w) [0..<n]))"
proof (induction n arbitrary: w k0 acc)
  case 0
  show ?case by simp
next
  case (Suc n)
  let ?w1 = "pollWorld E w (Suc 0)"
  have t0: "pollTime E w 0 < 5000" using Suc.prems by blast
  have lt: "\<not> threshold \<le> int (pollCount E w 0)" using Suc.prems by force
  have h: "\<forall>j<n. int (pollCount E ?w1 j) < threshold \<and> pollTime E ?w1 j < 5000"
    using Suc.prems poll_shift(2,4) [of E w] by (metis Suc_less_eq)
  have m: "map (pollRound E threshold w) [0..<Suc n] =
      pollRound E threshold w 0 # map (pollRound E threshold ?w1) [0..<n]"
    by (simp only: map_upt_Suc poll_shift)
  have w: "pollWorld E w (Suc n) = pollWorld E ?w1 n"
    by simp
  show ?case
    unfolding pollLoop_next [OF t0] m w
    by (simp only: lt if_False Suc.IH [OF h]) simp
qed

lemma pollRound_nonempty: "length (pollRound E t w j) \<ge> 1"
  by (simp add: pollRound_def)

lemma length_concat_rounds: "length (concat (map (pollRound E t w) [0..<n])) \<ge> n"
proof (induction n)
  case 0
  show ?case by simp
next
  case (Suc n)
  then show ?case using pollRound_nonempty [of E t w n] by simp
qed

lemma pollLoop_never:
  assumes "\<forall>j. int (pollCount E w j) < threshold \<and> pollTime E w j < 5000"
  shows "pollLoop E threshold (w, k0, [], acc) = None"
proof (cases "pollLoop E threshold (w, k0, [], acc)")
  case None
  then show ?thesis .
next
  case (Some y)
  define n where "n = Suc (length (events y))"
  have "pollLoop E threshold
       (pollWorld E w n, k0 + n, [], acc @ concat (map (pollRound E threshold w) [0..<n])) = Some y"
    using pollLoop_rounds [of n E w threshold k0 acc] assms Some by simp
  then have "prefix (acc @ concat (map (pollRound E threshold w) [0..<n])) (events y)"
    using pollLoop_prefix by fastforce
  then have "length (acc @ concat (map (pollRound E threshold w) [0..<n])) \<le> length (events y)"
    by (rule prefix_length_le)
  then show ?thesis
    using length_concat_rounds [of n E threshold w] by (simp add: n_def)
qed

text \<open>
  Claim C8, as amended. A wait is the opening of the spinner followed by rounds, each
  of them the firing of the 5000 ms timer, one status read and the spinner text.
  If the \<open>k\<close>-th poll is the first whose count of changed files reaches the
  threshold, and every poll up to it has its reads answered in less than 5000 ms,
  that is before the timer fires again, then \<open>waitForThreshold\<close> resolves at that
  poll, after exactly the rounds of the polls \<open>0\<close> to \<open>k\<close>, with exactly the list
  of files of that poll. If every poll is answered in less than 5000 ms and none
  reaches the threshold, the promise never resolves: there is no timeout. And
  whatever the latencies, a promise that resolves carries a list of files whose
  count reaches the threshold.
\<close>

theorem waitForThreshold_first_poll:
  "(threshold \<le> int (pollCount E w k) \<and> (\<forall>j<k. int (pollCount E w j) < threshold)
      \<and> (\<forall>j\<le>k. pollTime E w j < 5000) \<longrightarrow>
      waitForThreshold E threshold w =
        Some (Inr (pollFiles E w k), pollWorld E w (Suc k),
              WaitingStart threshold
                # concat (map (pollRound E threshold w) [0..<Suc k])
                @ [SpinnerSucceed (''Threshold reached! Found '' @ show_nat (pollCount E w k)
                                     @ '' files.'')]))
   \<and> ((\<forall>j. int (pollCount E w j) < threshold \<and> pollTime E w j < 5000) \<longrightarrow>
        waitForThreshold E threshold w = None)
   \<and> (\<forall>r w' evs. waitForThreshold E threshold w = Some (r, w', evs) \<longrightarrow>
        (\<exists>files. r = Inr files \<and> threshold \<le> int (fileCount files)))"
proof (intro conjI impI allI)
  assume "threshold \<le> int (pollCount E w k) \<and> (\<forall>j<k. int (pollCount E w j) < threshold)
      \<and> (\<forall>j\<le>k. pollTime E w j < 5000)"
  then show "waitForThreshold E threshold w =
        Some (Inr (pollFiles E w k), pollWorld E w (Suc k),
              WaitingStart threshold
                # concat (map (pollRound E threshold w) [0..<Suc k])
                @ [SpinnerSucceed (''Threshold reached! Found '' @ show_nat (pollCount E w k)
                                     @ '' files.'')])"
    unfolding waitForThreshold_def by (subst pollLoop_first) simp_all
next
  assume "\<forall>j. int (pollCount E w j) < threshold \<and> pollTime E w j < 5000"
  then show "waitForThreshold E threshold w = None"
    unfolding waitForThreshold_def by (rule pollLoop_never)
next
  fix r w' evs
  assume "waitForThreshold E threshold w = Some (r, w', evs)"
  then show "\<exists>files. r = Inr files \<and> threshold \<le> int (fileCount files)"
    unfolding waitForThreshold_def using pollLoop_sound by fastforce
qed

text \<open>The scripted environment on some status reads.\<close>

lemma stub_poll_eval:
  "checkGitStatus stub (Ok # Files fs # rest) = (Inr (Some fs), rest, [Call CheckIsRepo, Call Status])"
  "checkGitStatus stub (Ok # Slow ms (Files fs) # rest) =
     (Inr (Some fs), rest, [Call CheckIsRepo, Call Status])"
  "checkGitStatus stub (No # rest) =
     (Inr None, rest, [Call CheckIsRepo, ConsoleError ''Current directory is not a git repository.''])"
  "readTime stub (Ok # Files fs # rest) = 0"
  "readTime stub (No # rest) = 0"
  by (simp_all add: checkGitStatus_def io_defs stub_def readTime_def)

lemma three_polls_eval:
  "pollCount stub three_polls 0 = 2" "pollCount stub three_polls (Suc 0) = 2"
  "pollCount stub three_polls (Suc (Suc 0)) = 5"
  "pollTime stub three_polls 0 = 0" "pollTime stub three_polls (Suc 0) = 0"
  "pollTime stub three_polls (Suc (Suc 0)) = 0"
  "pollFiles stub three_polls (Suc (Suc 0)) =
      Some [changed ''a'', changed ''b'', changed ''c'', changed ''d'', changed ''e'']"
  "pollWorld stub three_polls (Suc (Suc (Suc 0))) = []"
  "pollRound stub 5 three_polls 0 = [Timer 5000, Call CheckIsRepo, Call Status, WaitingText 5 2]"
  "pollRound stub 5 three_polls (Suc 0) =
      [Timer 5000, Call CheckIsRepo, Call Status, WaitingText 5 2]"
  "pollRound stub 5 three_polls (Suc (Suc 0)) =
      [Timer 5000, Call CheckIsRepo, Call Status, WaitingText 5 5]"
  by (simp_all add: pollCount_def pollFiles_def pollTime_def pollRound_def fileCount_def
        three_polls_def stub_poll_eval outcome_def events_def)

text \<open>Past the end of the script every poll finds no changed file, at once.\<close>

lemma stub_idle_eval:
  "checkGitStatus stub [] = (Inr (Some []), [], [Call CheckIsRepo, Call Status])"
  "readTime stub [] = 0"
  by (simp_all add: checkGitStatus_def io_defs stub_def readTime_def)

lemma stub_idle_world: "pollWorld stub [] j = []"
  by (induction j) (simp_all add: stub_idle_eval)

lemma stub_idle_polls: "pollCount stub [] j = 0" "pollTime stub [] j = 0"
  by (simp_all add: pollCount_def pollFiles_def pollTime_def fileCount_def stub_idle_world
        stub_idle_eval outcome_def)

text \<open>
  With the counts 2, 2 and 5 and the threshold 5, the promise resolves after the third
  poll, with the list of the third poll, whose count reaches the threshold. When every
  poll finds no changed file, the promise never resolves.
\<close>

theorem waitForThreshold_first_poll_witness:
  "pollCount stub three_polls 0 = 2 \<and> pollCount stub three_polls 1 = 2
   \<and> pollCount stub three_polls 2 = 5
   \<and> waitForThreshold stub 5 three_polls =
       Some (Inr (Some [changed ''a'', changed ''b'', changed ''c'', changed ''d'', changed ''e'']),
             [],
             [WaitingStart 5,
              Timer 5000, Call CheckIsRepo, Call Status, WaitingText 5 2,
              Timer 5000, Call CheckIsRepo, Call Status, WaitingText 5 2,
              Timer 5000, Call CheckIsRepo, Call Status, WaitingText 5 5,
              SpinnerSucceed ''Threshold reached! Found 5 files.''])
   \<and> (5::int) \<le> int (fileCount (Some [changed ''a'', changed ''b'', changed ''c'',
                                       changed ''d'', changed ''e'']))
   \<and> (\<forall>j. pollCount stub [] j = 0)
   \<and> waitForThreshold stub 5 [] = None"
proof -
  have n: "pollCount stub three_polls 1 = 2" "pollCount stub three_polls 2 = 5"
    using three_polls_eval by (simp_all add: numeral_2_eq_2)
  have c: "(5::int) \<le> int (pollCount stub three_polls 2)
      \<and> (\<forall>j<2. int (pollCount stub three_polls j) < 5)
      \<and> (\<forall>j\<le>2. pollTime stub three_polls j < 5000)"
    using three_polls_eval by (simp add: numeral_2_eq_2 less_Suc_eq le_Suc_eq)
  have w: "waitForThreshold stub 5 three_polls =
        Some (Inr (pollFiles stub three_polls 2), pollWorld stub three_polls (Suc 2),
              WaitingStart 5
                # concat (map (pollRound stub 5 three_polls) [0..<Suc 2])
                @ [SpinnerSucceed (''Threshold reached! Found ''
                                     @ show_nat (pollCount stub three_polls 2) @ '' files.'')])"
    by (rule waitForThreshold_first_poll [of 5 stub three_polls 2, THEN conjunct1, THEN mp, OF c])
  have r: "map (pollRound stub 5 three_polls) [0..<Suc 2] =
      [pollRound stub 5 three_polls 0, pollRound stub 5 three_polls (Suc 0),
       pollRound stub 5 three_polls (Suc (Suc 0))]"
    by (simp add: numeral_3_eq_3)
  have two: "(2::nat) = Suc (Suc 0)" by simp
  have v: "waitForThreshold stub 5 three_polls =
       Some (Inr (Some [changed ''a'', changed ''b'', changed ''c'', changed ''d'', changed ''e'']),
             [],
             [WaitingStart 5,
              Timer 5000, Call CheckIsRepo, Call Status, WaitingText 5 2,
              Timer 5000, Call CheckIsRepo, Call Status, WaitingText 5 2,
              Timer 5000, Call CheckIsRepo, Call Status, WaitingText 5 5,
              SpinnerSucceed ''Threshold reached! Found 5 files.''])"
    unfolding w r unfolding two three_polls_eval by (simp add: show_nat.simps)
  have "\<exists>files. (Inr (Some [changed ''a'', changed ''b'', changed ''c'', changed ''d'',
                            changed ''e'']) :: error + changed_file list option) = Inr files
            \<and> (5::int) \<le> int (fileCount files)"
    by (rule waitForThreshold_first_poll [of 5 stub three_polls 2, THEN conjunct2, THEN conjunct2,
              THEN spec, THEN spec, THEN spec, THEN mp, OF v])
  then have s: "(5::int) \<le> int (fileCount (Some [changed ''a'', changed ''b'', changed ''c'',
                                       changed ''d'', changed ''e'']))"
    by (elim exE conjE) (simp only: sum.inject)
  have i: "\<forall>j. int (pollCount stub [] j) < 5 \<and> pollTime stub [] j < 5000"
    by (simp add: stub_idle_polls)
  have z: "\<forall>j. pollCount stub [] j = 0"
    by (simp add: stub_idle_polls)
  have e: "waitForThreshold stub 5 [] = None"
    by (rule waitForThreshold_first_poll [of 5 stub "[]" 0, THEN conjunct2, THEN conjunct1,
              THEN mp, OF i])
  show ?thesis using three_polls_eval(1) n v s z e by (intro conjI)
qed

text \<open>
  Without the bound on the latencies the first poll that reaches the threshold need
  not be the one that resolves the promise. The status query of the first poll finds
  5 files and takes 7000 ms; the timer fires again at 10000 ms, the second poll is
  answered at once with 6 files and resolves the promise with its list, before the
  first poll has settled.
\<close>

theorem waitForThreshold_overlap_counterexample:
  "pollFiles stub overlapping_polls 0 =
       Some [changed ''a'', changed ''b'', changed ''c'', changed ''d'', changed ''e'']
   \<and> pollCount stub overlapping_polls 0 = 5
   \<and> waitForThreshold stub 5 overlapping_polls =
       Some (Inr (Some [changed ''f1'', changed ''f2'', changed ''f3'', changed ''f4'',
                        changed ''f5'', changed ''f6'']),
             [],
             [WaitingStart 5,
              Timer 5000, Call CheckIsRepo, Call Status,
              Timer 5000, Call CheckIsRepo, Call Status, WaitingText 5 6,
              SpinnerSucceed ''Threshold reached! Found 6 files.''])"
proof -
  have a: "pollFiles stub overlapping_polls 0 =
       Some [changed ''a'', changed ''b'', changed ''c'', changed ''d'', changed ''e'']"
      "pollCount stub overlapping_polls 0 = 5"
    by (simp_all add: pollCount_def pollFiles_def fileCount_def overlapping_polls_def
          stub_poll_eval outcome_def)
  have b: "waitForThreshold stub 5 overlapping_polls =
       Some (Inr (Some [changed ''f1'', changed ''f2'', changed ''f3'', changed ''f4'',
                        changed ''f5'', changed ''f6'']),
             [],
             [WaitingStart 5,
              Timer 5000, Call CheckIsRepo, Call Status,
              Timer 5000, Call CheckIsRepo, Call Status, WaitingText 5 6,
              SpinnerSucceed ''Threshold reached! Found 6 files.''])"
    unfolding waitForThreshold_def overlapping_polls_def
    apply (subst pollLoop.simps, simp add: pollStep_def nextSettled_def pollDone_def stub_def fileCount_def)
    apply (subst pollLoop.simps, simp add: pollStep_def nextSettled_def pollDone_def stub_def fileCount_def)
    apply (subst pollLoop.simps, simp add: pollStep_def nextSettled_def pollDone_def stub_def fileCount_def)
    apply (subst pollLoop.simps, simp add: pollStep_def nextSettled_def pollDone_def stub_def fileCount_def)
    apply (subst pollLoop.simps, simp add: pollStep_def nextSettled_def pollDone_def stub_def fileCount_def
             show_nat.simps)
    done
  show ?thesis using a b by (intro conjI)
qed

text \<open>The loop of \<open>main\<close> is its passes, one after the other.\<close>

lemma mainLoop_passes:
  "mainLoop E w tr =
     (case mainPasses n E w tr of
        None \<Rightarrow> None
      | Some (Some e, w1, tr1) \<Rightarrow> Some (e, w1, tr1)
      | Some (None, w1, tr1) \<Rightarrow> mainLoop E w1 tr1)"
proof (induction n arbitrary: w tr)
  case 0
  show ?case by simp
next
  case (Suc n)
  show ?case
  proof (cases "mainCycle E w")
    case None
    then show ?thesis by (subst mainLoop.simps) simp
  next
    case (Some y)
    obtain r w1 evs where y: "y = (r, w1, evs)" by (cases y)
    show ?thesis
    proof (cases r)
      case (Inl e)
      then show ?thesis using Some y by (subst mainLoop.simps) simp
    next
      case (Inr u)
      have "mainLoop E w tr = mainLoop E w1 (tr @ evs)"
        using Some y Inr by (subst mainLoop.simps) simp
      also have "\<dots> =
          (case mainPasses n E w1 (tr @ evs) of
             None \<Rightarrow> None
           | Some (Some e, w2, tr1) \<Rightarrow> Some (e, w2, tr1)
           | Some (None, w2, tr1) \<Rightarrow> mainLoop E w2 tr1)"
        by (rule Suc.IH)
      also have "\<dots> =
          (case mainPasses (Suc n) E w tr of
             None \<Rightarrow> None
           | Some (Some e, w2, tr1) \<Rightarrow> Some (e, w2, tr1)
           | Some (None, w2, tr1) \<Rightarrow> mainLoop E w2 tr1)"
        using Some y Inr by simp
      finally show ?thesis .
    qed
  qed
qed

lemma mainCycle_failed_read:
  assumes "checkGitStatus E w = (Inr None, w1, evs)"
  shows "mainCycle E w =
           Some (Inr (), w1,
                 evs @ [ConsoleError ''Error reading git status. Retrying in 5s...'', Timer 5000])"
  using assms by (simp add: mainCycle_def await_p_def lift_def await_def emit_def sleep_def)

lemma pollWorld_Suc0: "checkGitStatus E w = (r, w1, evs) \<Longrightarrow> pollWorld E w (Suc 0) = w1"
  by simp

text \<open>
  Claim C9, as amended. Let a status read fail: \<open>checkGitStatus\<close> resolves with
  \<^verbatim>\<open>null\<close>. In the main loop, the pass resolves after the events of the read,
  the report and a timer of 5000 ms; the calls of the read, \<^verbatim>\<open>checkIsRepo\<close>
  alone or followed by \<^verbatim>\<open>status\<close>, are the only calls of the pass, so nothing
  is staged, committed or pushed; the pass ends without an error, and \<open>n + 1\<close>
  passes are the failed one followed by \<open>n\<close> passes from the world the read has
  left, so that the second pass is one whole cycle from there. In
  \<open>waitForThreshold\<close>, when the failed read is the first poll and is answered in
  less than 5000 ms: with a threshold of 1 or more the poll counts 0 files and the
  polling goes on, the promise resolving at the first later poll that reaches the
  threshold, with that poll's list, provided that the polls up to it are answered in
  less than 5000 ms, and never resolving when every later poll is answered in time and
  stays below the threshold; with a threshold of 0 or less the failed read itself
  resolves the promise, with \<^verbatim>\<open>null\<close>.
\<close>

theorem failed_status_read_retries:
  assumes "checkGitStatus E w = (Inr None, w1, evs)"
  shows "mainCycle E w =
           Some (Inr (), w1,
                 evs @ [ConsoleError ''Error reading git status. Retrying in 5s...'', Timer 5000])
       \<and> (calls evs = [CheckIsRepo] \<or> calls evs = [CheckIsRepo, Status])
       \<and> mainPasses (Suc 0) E w tr =
           Some (None, w1,
                 tr @ evs @ [ConsoleError ''Error reading git status. Retrying in 5s...'',
                             Timer 5000])
       \<and> mainPasses (Suc n) E w tr =
           mainPasses n E w1
             (tr @ evs @ [ConsoleError ''Error reading git status. Retrying in 5s...'', Timer 5000])
       \<and> mainPasses (Suc (Suc 0)) E w tr =
           (case mainCycle E w1 of
              None \<Rightarrow> None
            | Some (Inl e, w2, evs2) \<Rightarrow>
                Some (Some e, w2,
                      tr @ evs @ [ConsoleError ''Error reading git status. Retrying in 5s...'',
                                  Timer 5000] @ evs2)
            | Some (Inr u, w2, evs2) \<Rightarrow>
                Some (None, w2,
                      tr @ evs @ [ConsoleError ''Error reading git status. Retrying in 5s...'',
                                  Timer 5000] @ evs2))
       \<and> (readTime E w < 5000 \<longrightarrow>
            (threshold \<le> 0 \<longrightarrow>
               waitForThreshold E threshold w =
                 Some (Inr None, w1,
                       WaitingStart threshold # Timer 5000 # evs @
                         [WaitingText threshold 0,
                          SpinnerSucceed (''Threshold reached! Found '' @ show_nat 0
                                            @ '' files.'')]))
          \<and> (0 < threshold \<longrightarrow>
               (\<forall>k. threshold \<le> int (pollCount E w1 k)
                     \<and> (\<forall>j<k. int (pollCount E w1 j) < threshold)
                     \<and> (\<forall>j\<le>k. pollTime E w1 j < 5000) \<longrightarrow>
                  waitForThreshold E threshold w =
                    Some (Inr (pollFiles E w1 k), pollWorld E w1 (Suc k),
                          WaitingStart threshold # Timer 5000 # evs @ [WaitingText threshold 0]
                            @ concat (map (pollRound E threshold w1) [0..<Suc k])
                            @ [SpinnerSucceed (''Threshold reached! Found ''
                                                 @ show_nat (pollCount E w1 k) @ '' files.'')]))
               \<and> ((\<forall>j. int (pollCount E w1 j) < threshold \<and> pollTime E w1 j < 5000) \<longrightarrow>
                    waitForThreshold E threshold w = None)))"
proof -
  have c: "mainCycle E w =
           Some (Inr (), w1,
                 evs @ [ConsoleError ''Error reading git status. Retrying in 5s...'', Timer 5000])"
    using assms by (rule mainCycle_failed_read)
  have k: "calls evs = [CheckIsRepo] \<or> calls evs = [CheckIsRepo, Status]"
    using checkGitStatus_resolves [of E w] assms by auto
  have p1: "mainPasses (Suc 0) E w tr =
           Some (None, w1,
                 tr @ evs @ [ConsoleError ''Error reading git status. Retrying in 5s...'',
                             Timer 5000])"
    by (simp add: c)
  have pn: "mainPasses (Suc n) E w tr =
           mainPasses n E w1
             (tr @ evs @ [ConsoleError ''Error reading git status. Retrying in 5s...'', Timer 5000])"
    by (simp add: c)
  have p2: "mainPasses (Suc (Suc 0)) E w tr =
           (case mainCycle E w1 of
              None \<Rightarrow> None
            | Some (Inl e, w2, evs2) \<Rightarrow>
                Some (Some e, w2,
                      tr @ evs @ [ConsoleError ''Error reading git status. Retrying in 5s...'',
                                  Timer 5000] @ evs2)
            | Some (Inr u, w2, evs2) \<Rightarrow>
                Some (None, w2,
                      tr @ evs @ [ConsoleError ''Error reading git status. Retrying in 5s...'',
                                  Timer 5000] @ evs2))"
    by (simp add: c split: option.splits prod.splits sum.splits)
  have q: "readTime E w < 5000 \<longrightarrow>
          (threshold \<le> 0 \<longrightarrow>
               waitForThreshold E threshold w =
                 Some (Inr None, w1,
                       WaitingStart threshold # Timer 5000 # evs @
                         [WaitingText threshold 0,
                          SpinnerSucceed (''Threshold reached! Found '' @ show_nat 0
                                            @ '' files.'')]))
          \<and> (0 < threshold \<longrightarrow>
               (\<forall>k. threshold \<le> int (pollCount E w1 k)
                     \<and> (\<forall>j<k. int (pollCount E w1 j) < threshold)
                     \<and> (\<forall>j\<le>k. pollTime E w1 j < 5000) \<longrightarrow>
                  waitForThreshold E threshold w =
                    Some (Inr (pollFiles E w1 k), pollWorld E w1 (Suc k),
                          WaitingStart threshold # Timer 5000 # evs @ [WaitingText threshold 0]
                            @ concat (map (pollRound E threshold w1) [0..<Suc k])
                            @ [SpinnerSucceed (''Threshold reached! Found ''
                                                 @ show_nat (pollCount E w1 k) @ '' files.'')]))
               \<and> ((\<forall>j. int (pollCount E w1 j) < threshold \<and> pollTime E w1 j < 5000) \<longrightarrow>
                    waitForThreshold E threshold w = None))"
  proof (rule impI)
    assume t: "readTime E w < 5000"
    note r = pollLoop_round [OF t assms, of threshold 0 "[WaitingStart threshold]"]
    show "(threshold \<le> 0 \<longrightarrow>
               waitForThreshold E threshold w =
                 Some (Inr None, w1,
                       WaitingStart threshold # Timer 5000 # evs @
                         [WaitingText threshold 0,
                          SpinnerSucceed (''Threshold reached! Found '' @ show_nat 0
                                            @ '' files.'')]))
          \<and> (0 < threshold \<longrightarrow>
               (\<forall>k. threshold \<le> int (pollCount E w1 k)
                     \<and> (\<forall>j<k. int (pollCount E w1 j) < threshold)
                     \<and> (\<forall>j\<le>k. pollTime E w1 j < 5000) \<longrightarrow>
                  waitForThreshold E threshold w =
                    Some (Inr (pollFiles E w1 k), pollWorld E w1 (Suc k),
                          WaitingStart threshold # Timer 5000 # evs @ [WaitingText threshold 0]
                            @ concat (map (pollRound E threshold w1) [0..<Suc k])
                            @ [SpinnerSucceed (''Threshold reached! Found ''
                                                 @ show_nat (pollCount E w1 k) @ '' files.'')]))
               \<and> ((\<forall>j. int (pollCount E w1 j) < threshold \<and> pollTime E w1 j < 5000) \<longrightarrow>
                    waitForThreshold E threshold w = None))"
    proof (intro conjI impI allI)
      assume "threshold \<le> 0"
      then show "waitForThreshold E threshold w =
                 Some (Inr None, w1,
                       WaitingStart threshold # Timer 5000 # evs @
                         [WaitingText threshold 0,
                          SpinnerSucceed (''Threshold reached! Found '' @ show_nat 0
                                            @ '' files.'')])"
        using r by (simp add: waitForThreshold_def fileCount_def)
    next
      fix k
      assume pos: "0 < threshold"
        and h: "threshold \<le> int (pollCount E w1 k)
                     \<and> (\<forall>j<k. int (pollCount E w1 j) < threshold)
                     \<and> (\<forall>j\<le>k. pollTime E w1 j < 5000)"
      have "waitForThreshold E threshold w =
          pollLoop E threshold
            (w1, Suc 0, [], [WaitingStart threshold] @ Timer 5000 # evs @ [WaitingText threshold 0])"
        using r pos by (simp add: waitForThreshold_def fileCount_def)
      also have "\<dots> =
          Some (Inr (pollFiles E w1 k), pollWorld E w1 (Suc k),
                ([WaitingStart threshold] @ Timer 5000 # evs @ [WaitingText threshold 0])
                  @ concat (map (pollRound E threshold w1) [0..<Suc k])
                  @ [SpinnerSucceed (''Threshold reached! Found ''
                                       @ show_nat (pollCount E w1 k) @ '' files.'')])"
        using h by (intro pollLoop_first) blast+
      finally show "waitForThreshold E threshold w =
                    Some (Inr (pollFiles E w1 k), pollWorld E w1 (Suc k),
                          WaitingStart threshold # Timer 5000 # evs @ [WaitingText threshold 0]
                            @ concat (map (pollRound E threshold w1) [0..<Suc k])
                            @ [SpinnerSucceed (''Threshold reached! Found ''
                                                 @ show_nat (pollCount E w1 k) @ '' files.'')])"
        by simp
    next
      assume pos: "0 < threshold"
        and h: "\<forall>j. int (pollCount E w1 j) < threshold \<and> pollTime E w1 j < 5000"
      have "waitForThreshold E threshold w =
          pollLoop E threshold
            (w1, Suc 0, [], [WaitingStart threshold] @ Timer 5000 # evs @ [WaitingText threshold 0])"
        using r pos by (simp add: waitForThreshold_def fileCount_def)
      then show "waitForThreshold E threshold w = None"
        using pollLoop_never [OF h] by simp
    qed
  qed
  show ?thesis using c k p1 pn p2 q by (intro conjI)
qed

text \<open>
  A directory that is no repository at the first read and holds 5 changed files at
  the second: the main loop reports, waits and commits the 5 files in its second
  pass; a wait for 5 files resolves at its second poll, and a wait for 0 files at the
  failed read. When the failed read is followed by polls that find no changed file, a
  wait for 5 files never resolves.
\<close>

theorem failed_status_read_retries_witness:
  "checkGitStatus stub failed_then_five =
     (Inr None,
      [Ok, Files [changed ''a'', changed ''b'', changed ''c'', changed ''d'', changed ''e'']],
      [Call CheckIsRepo, ConsoleError ''Current directory is not a git repository.''])
   \<and> mainPasses (Suc 0) stub failed_then_five [] =
       Some (None,
             [Ok, Files [changed ''a'', changed ''b'', changed ''c'', changed ''d'', changed ''e'']],
             [Call CheckIsRepo, ConsoleError ''Current directory is not a git repository.'',
              ConsoleError ''Error reading git status. Retrying in 5s...'', Timer 5000])
   \<and> calls (snd (snd (the (mainPasses (Suc (Suc 0)) stub failed_then_five [])))) =
       [CheckIsRepo, CheckIsRepo, Status,
        Add ''a'', Commit ''Update a: Automated sync 2024-01-01T00:00:00.000Z'',
        Add ''b'', Commit ''Update b: Automated sync 2024-01-01T00:00:00.000Z'',
        Add ''c'', Commit ''Update c: Automated sync 2024-01-01T00:00:00.000Z'',
        Add ''d'', Commit ''Update d: Automated sync 2024-01-01T00:00:00.000Z'',
        Add ''e'', Commit ''Update e: Automated sync 2024-01-01T00:00:00.000Z'',
        Push None]
   \<and> waitForThreshold stub 5 failed_then_five =
       Some (Inr (Some [changed ''a'', changed ''b'', changed ''c'', changed ''d'', changed ''e'']),
             [],
             [WaitingStart 5,
              Timer 5000, Call CheckIsRepo,
              ConsoleError ''Current directory is not a git repository.'', WaitingText 5 0,
              Timer 5000, Call CheckIsRepo, Call Status, WaitingText 5 5,
              SpinnerSucceed ''Threshold reached! Found 5 files.''])
   \<and> waitForThreshold stub 0 failed_then_five =
       Some (Inr None,
             [Ok, Files [changed ''a'', changed ''b'', changed ''c'', changed ''d'', changed ''e'']],
             [WaitingStart 0, Timer 5000, Call CheckIsRepo,
              ConsoleError ''Current directory is not a git repository.'', WaitingText 0 0,
              SpinnerSucceed ''Threshold reached! Found 0 files.''])
   \<and> checkGitStatus stub [No] =
       (Inr None, [],
        [Call CheckIsRepo, ConsoleError ''Current directory is not a git repository.''])
   \<and> waitForThreshold stub 5 [No] = None"
proof -
  let ?w1 = "[Ok, Files [changed ''a'', changed ''b'', changed ''c'', changed ''d'', changed ''e'']]"
  let ?evs = "[Call CheckIsRepo, ConsoleError ''Current directory is not a git repository.'']"
  have h: "checkGitStatus stub failed_then_five = (Inr None, ?w1, ?evs)"
    by (simp add: failed_then_five_def stub_poll_eval)
  note t = failed_status_read_retries [OF h, of "[]" 0 5]
  have p1: "mainPasses (Suc 0) stub failed_then_five [] =
       Some (None, ?w1,
             [Call CheckIsRepo, ConsoleError ''Current directory is not a git repository.'',
              ConsoleError ''Error reading git status. Retrying in 5s...'', Timer 5000])"
    using t [THEN conjunct2, THEN conjunct2, THEN conjunct1] by simp
  have c2: "mainCycle stub ?w1 =
      Some (prepend [Call CheckIsRepo, Call Status]
              (commitAndPush stub
                 (Some [changed ''a'', changed ''b'', changed ''c'', changed ''d'', changed ''e''])
                 []))"
    by (simp add: mainCycle_def await_p_def lift_def stub_poll_eval prepend_def
          split: prod.splits sum.splits)
  have cp: "calls (events (commitAndPush stub
              (Some [changed ''a'', changed ''b'', changed ''c'', changed ''d'', changed ''e''])
              [])) =
       [Add ''a'', Commit ''Update a: Automated sync 2024-01-01T00:00:00.000Z'',
        Add ''b'', Commit ''Update b: Automated sync 2024-01-01T00:00:00.000Z'',
        Add ''c'', Commit ''Update c: Automated sync 2024-01-01T00:00:00.000Z'',
        Add ''d'', Commit ''Update d: Automated sync 2024-01-01T00:00:00.000Z'',
        Add ''e'', Commit ''Update e: Automated sync 2024-01-01T00:00:00.000Z'',
        Push None]
      \<and> outcome (commitAndPush stub
              (Some [changed ''a'', changed ''b'', changed ''c'', changed ''d'', changed ''e''])
              []) = Inr ()"
    by (simp add: commitAndPush_def run_defs pushChanges_def show_nat.simps)
  obtain r w2 evs2 where cp0: "commitAndPush stub
              (Some [changed ''a'', changed ''b'', changed ''c'', changed ''d'', changed ''e''])
              [] = (r, w2, evs2)"
    by (cases "commitAndPush stub
              (Some [changed ''a'', changed ''b'', changed ''c'', changed ''d'', changed ''e''])
              []")
  have o: "r = Inr ()" and ce: "calls evs2 =
       [Add ''a'', Commit ''Update a: Automated sync 2024-01-01T00:00:00.000Z'',
        Add ''b'', Commit ''Update b: Automated sync 2024-01-01T00:00:00.000Z'',
        Add ''c'', Commit ''Update c: Automated sync 2024-01-01T00:00:00.000Z'',
        Add ''d'', Commit ''Update d: Automated sync 2024-01-01T00:00:00.000Z'',
        Add ''e'', Commit ''Update e: Automated sync 2024-01-01T00:00:00.000Z'',
        Push None]"
    using cp unfolding cp0 events_tuple outcome_tuple by (rule conjunct2, rule conjunct1)
  note t5 = t [THEN conjunct2, THEN conjunct2, THEN conjunct2, THEN conjunct2, THEN conjunct1]
  have m2: "mainPasses (Suc (Suc 0)) stub failed_then_five [] =
      Some (None, w2,
            [Call CheckIsRepo, ConsoleError ''Current directory is not a git repository.'',
             ConsoleError ''Error reading git status. Retrying in 5s...'', Timer 5000,
             Call CheckIsRepo, Call Status] @ evs2)"
    unfolding t5 c2 cp0 o by (simp add: prepend_def)
  have p2: "calls (snd (snd (the (mainPasses (Suc (Suc 0)) stub failed_then_five [])))) =
       [CheckIsRepo, CheckIsRepo, Status,
        Add ''a'', Commit ''Update a: Automated sync 2024-01-01T00:00:00.000Z'',
        Add ''b'', Commit ''Update b: Automated sync 2024-01-01T00:00:00.000Z'',
        Add ''c'', Commit ''Update c: Automated sync 2024-01-01T00:00:00.000Z'',
        Add ''d'', Commit ''Update d: Automated sync 2024-01-01T00:00:00.000Z'',
        Add ''e'', Commit ''Update e: Automated sync 2024-01-01T00:00:00.000Z'',
        Push None]"
    unfolding m2 by (simp add: ce)
  have rt: "readTime stub failed_then_five < 5000"
    by (simp add: failed_then_five_def stub_poll_eval)
  have k0: "(5::int) \<le> int (pollCount stub ?w1 0)
                     \<and> (\<forall>j<0. int (pollCount stub ?w1 j) < 5)
                     \<and> (\<forall>j\<le>0. pollTime stub ?w1 j < 5000)"
    by (simp add: pollCount_def pollFiles_def pollTime_def fileCount_def stub_poll_eval
          outcome_def)
  have pos: "(0::int) < 5" by simp
  have "waitForThreshold stub 5 failed_then_five =
                    Some (Inr (pollFiles stub ?w1 0), pollWorld stub ?w1 (Suc 0),
                          WaitingStart 5 # Timer 5000 # ?evs @ [WaitingText 5 0]
                            @ concat (map (pollRound stub 5 ?w1) [0..<Suc 0])
                            @ [SpinnerSucceed (''Threshold reached! Found ''
                                                 @ show_nat (pollCount stub ?w1 0) @ '' files.'')])"
    by (rule t [THEN conjunct2, THEN conjunct2, THEN conjunct2, THEN conjunct2, THEN conjunct2,
                 THEN mp, OF rt, THEN conjunct2, THEN mp, OF pos, THEN conjunct1,
                 THEN spec, THEN mp, OF k0])
  then have w: "waitForThreshold stub 5 failed_then_five =
       Some (Inr (Some [changed ''a'', changed ''b'', changed ''c'', changed ''d'', changed ''e'']),
             [],
             [WaitingStart 5,
              Timer 5000, Call CheckIsRepo,
              ConsoleError ''Current directory is not a git repository.'', WaitingText 5 0,
              Timer 5000, Call CheckIsRepo, Call Status, WaitingText 5 5,
              SpinnerSucceed ''Threshold reached! Found 5 files.''])"
    by (simp add: pollCount_def pollFiles_def pollRound_def fileCount_def stub_poll_eval
          outcome_def events_def show_nat.simps)
  have nonpos: "(0::int) \<le> 0" by simp
  have "waitForThreshold stub 0 failed_then_five =
                 Some (Inr None, ?w1,
                       WaitingStart 0 # Timer 5000 # ?evs @
                         [WaitingText 0 0,
                          SpinnerSucceed (''Threshold reached! Found '' @ show_nat 0
                                            @ '' files.'')])"
    by (rule failed_status_read_retries [OF h, of "[]" 0 0, THEN conjunct2, THEN conjunct2,
                 THEN conjunct2, THEN conjunct2, THEN conjunct2,
                 THEN mp, OF rt, THEN conjunct1, THEN mp, OF nonpos])
  then have z: "waitForThreshold stub 0 failed_then_five =
       Some (Inr None, ?w1,
             [WaitingStart 0, Timer 5000, Call CheckIsRepo,
              ConsoleError ''Current directory is not a git repository.'', WaitingText 0 0,
              SpinnerSucceed ''Threshold reached! Found 0 files.''])"
    by (simp add: show_nat.simps)
  have h2: "checkGitStatus stub [No] = (Inr None, [], ?evs)"
    by (simp add: stub_poll_eval)
  have rt2: "readTime stub [No] < 5000"
    by (simp add: stub_poll_eval)
  have i: "\<forall>j. int (pollCount stub [] j) < 5 \<and> pollTime stub [] j < 5000"
    by (simp add: stub_idle_polls)
  have e: "waitForThreshold stub 5 [No] = None"
    by (rule failed_status_read_retries [OF h2, of "[]" 0 5, THEN conjunct2, THEN conjunct2,
                 THEN conjunct2, THEN conjunct2, THEN conjunct2,
                 THEN mp, OF rt2, THEN conjunct2, THEN mp, OF pos, THEN conjunct2, THEN mp, OF i])
  show ?thesis using h p1 p2 w z h2 e by (intro conjI)
qed

text \<open>
  With the threshold 0 the wait does not go on polling after a failed read: the count
  0 reaches the threshold and the promise resolves with \<^verbatim>\<open>null\<close>.
\<close>

theorem waitForThreshold_zero_counterexample:
  "checkGitStatus stub [No] =
     (Inr None, [], [Call CheckIsRepo, ConsoleError ''Current directory is not a git repository.''])
   \<and> waitForThreshold stub 0 [No] =
       Some (Inr None, [],
             [WaitingStart 0, Timer 5000, Call CheckIsRepo,
              ConsoleError ''Current directory is not a git repository.'', WaitingText 0 0,
              SpinnerSucceed ''Threshold reached! Found 0 files.''])"
proof -
  have a: "checkGitStatus stub [No] =
     (Inr None, [], [Call CheckIsRepo, ConsoleError ''Current directory is not a git repository.''])"
    by (simp add: stub_poll_eval)
  have b: "waitForThreshold stub 0 [No] =
       Some (Inr None, [],
             [WaitingStart 0, Timer 5000, Call CheckIsRepo,
              ConsoleError ''Current directory is not a git repository.'', WaitingText 0 0,
              SpinnerSucceed ''Threshold reached! Found 0 files.''])"
    unfolding waitForThreshold_def
    apply (subst pollLoop.simps, simp add: pollStep_def nextSettled_def pollDone_def stub_def fileCount_def)
    apply (subst pollLoop.simps, simp add: pollStep_def nextSettled_def pollDone_def stub_def fileCount_def
             show_nat.simps)
    done
  show ?thesis using a b by (intro conjI)
qed

text \<open>
  Claim C10. When listing the local branches fails, \<open>getBranches\<close> resolves with
  \<^verbatim>\<open>null\<close>, the startup issues no prompt and no checkout, and \<open>main\<close> goes
  straight into the loop.
\<close>

theorem main_skips_branch_selection:
  assumes "git_branchLocal E w = (Inl e, w1)"
  shows "getBranches E w =
           (Inr None, w1,
            [Call BranchLocal, ConsoleError (''Error getting branches: '' @ message e)])
       \<and> startup E w =
           (Inr (), w1,
            [ConsoleLog ''Running Deep (Auto Git Pusher) in Continuous Mode...'',
             ConsoleLog ''Press Ctrl+C to stop.'',
             Call BranchLocal, ConsoleError (''Error getting branches: '' @ message e)])
       \<and> \<not> list_ex is_prompt (events (startup E w))
       \<and> \<not> list_ex is_checkout (calls (events (startup E w)))
       \<and> main E w =
           mainLoop E w1
             [ConsoleLog ''Running Deep (Auto Git Pusher) in Continuous Mode...'',
              ConsoleLog ''Press Ctrl+C to stop.'',
              Call BranchLocal, ConsoleError (''Error getting branches: '' @ message e)]"
proof -
  have g: "getBranches E w =
           (Inr None, w1,
            [Call BranchLocal, ConsoleError (''Error getting branches: '' @ message e)])"
    using assms by (simp add: getBranches_def await_def try_catch_def call_def emit_def ret_def)
  have s: "startup E w =
           (Inr (), w1,
            [ConsoleLog ''Running Deep (Auto Git Pusher) in Continuous Mode...'',
             ConsoleLog ''Press Ctrl+C to stop.'',
             Call BranchLocal, ConsoleError (''Error getting branches: '' @ message e)])"
    unfolding startup_def selectBranch_def await_emit
    by (simp add: g await_def ret_def)
  show ?thesis
    using g s by (simp add: main_def events_def)
qed

theorem main_skips_branch_selection_witness:
  "git_branchLocal stub [Fails ''fatal: not a git repository''] =
     (Inl (Error ''fatal: not a git repository''), [])
   \<and> main stub [Fails ''fatal: not a git repository''] =
       mainLoop stub []
         [ConsoleLog ''Running Deep (Auto Git Pusher) in Continuous Mode...'',
          ConsoleLog ''Press Ctrl+C to stop.'',
          Call BranchLocal, ConsoleError ''Error getting branches: fatal: not a git repository'']"
proof -
  have h: "git_branchLocal stub [Fails ''fatal: not a git repository''] =
     (Inl (Error ''fatal: not a git repository''), [])"
    by (simp add: stub_def)
  show ?thesis
    using main_skips_branch_selection [OF h] h by simp
qed

text \<open>With branches listed, the prompt is issued.\<close>

lemma startup_prompts_when_listed:
  assumes "git_branchLocal E w = (Inr bs, w1)"
  shows "\<exists>rest. events (startup E w) =
           [ConsoleLog ''Running Deep (Auto Git Pusher) in Continuous Mode...'',
            ConsoleLog ''Press Ctrl+C to stop.'', Call BranchLocal,
            PromptList ''Select the branch to work on:'' (all_branches bs) (current bs)] @ rest"
  using assms unfolding startup_def selectBranch_def getBranches_def await_emit
  by (simp add: await_def try_catch_def call_def ask_def ret_def events_def prepend_def
        split: prod.splits sum.splits)

end
